theory Spec2Isabelle
  imports Complex_Main
begin

section \<open>The notebook \<open>DynamicProgramming/DPPwNumba.ipynb\<close>\<close>

text \<open>
  The notebook fills a matrix \<open>Vmat\<close> from a payoff matrix \<open>e\<close>, a value vector \<open>V\<close> and a
  discount factor \<open>betafirm\<close> in three ways: a nested loop at top level (cell 1), whole-array
  operations of numpy (cell 3), and the function \<open>VFI_loop\<close> (cell 5), whose body is the same
  nested loop.

  Python names hold references to array objects, and the loops write into the object that
  \<open>Vmat\<close> refers to. The model therefore keeps the arrays in an explicit store and passes
  addresses around. The entries are of an arbitrary type with \<open>+\<close>, \<open>*\<close> and \<open>0\<close>: the general
  theorems hold for whatever these operations are, the rounded operations of binary64 among
  them; the scenario with decimal constants is stated over the real numbers and over
  binary64.

  There are two levels. In the store of array objects every array owns its rows, and every
  index is checked, as the interpreter does. In the flat memory an array is a view of cells
  that another view may share, and an access is checked (the interpreter) or not (the code
  that numba compiles from \<open>VFI_loop\<close>).
\<close>

subsection \<open>Exceptions, arrays and the store\<close>

datatype error = IndexError | ValueError

type_synonym addr = nat

text \<open>A two-dimensional numpy array: its shape and its rows.\<close>

record 'a ndarray2 =
  nrows :: nat
  ncols :: nat
  rows :: "'a list list"

text \<open>
  The store: the one-dimensional arrays, the two-dimensional arrays, and the next unused
  address. Every array object owns its data, as the results of \<open>np.zeros\<close> do; arrays that
  share data are views of a memory, further down.
\<close>

record 'a heap =
  arrays1 :: "addr \<Rightarrow> 'a list"
  arrays2 :: "addr \<Rightarrow> 'a ndarray2"
  lim :: addr

text \<open>An array whose rows agree with its shape \<open>(r, c)\<close>.\<close>

definition has_shape :: "nat \<Rightarrow> nat \<Rightarrow> 'a ndarray2 \<Rightarrow> bool" where
  "has_shape r c m \<longleftrightarrow>
     nrows m = r \<and> ncols m = c \<and> length (rows m) = r \<and> list_all (\<lambda>row. length row = c) (rows m)"

text \<open>\<open>V[j]\<close>, \<open>e[i, j]\<close> and \<open>Vmat[i, j] = x\<close> for indices from \<open>range\<close>, which are never negative.\<close>

definition getitem1 :: "addr \<Rightarrow> nat \<Rightarrow> 'a heap \<Rightarrow> error + 'a" where
  "getitem1 a j h =
     (let v = arrays1 h a in if j < length v then Inr (v ! j) else Inl IndexError)"

definition getitem2 :: "addr \<Rightarrow> nat \<Rightarrow> nat \<Rightarrow> 'a heap \<Rightarrow> error + 'a" where
  "getitem2 a i j h =
     (let m = arrays2 h a
      in if i < nrows m \<and> j < ncols m then Inr (rows m ! i ! j) else Inl IndexError)"

definition set_rows :: "addr \<Rightarrow> 'a list list \<Rightarrow> 'a heap \<Rightarrow> 'a heap" where
  "set_rows a rs h = h\<lparr>arrays2 := (arrays2 h)(a := (arrays2 h a)\<lparr>rows := rs\<rparr>)\<rparr>"

definition setitem2 :: "addr \<Rightarrow> nat \<Rightarrow> nat \<Rightarrow> 'a \<Rightarrow> 'a heap \<Rightarrow> (error + unit) \<times> 'a heap" where
  "setitem2 a i j x h =
     (let m = arrays2 h a
      in if i < nrows m \<and> j < ncols m
         then (Inr (), set_rows a ((rows m)[i := (rows m ! i)[j := x]]) h)
         else (Inl IndexError, h))"

text \<open>A new array object at the next unused address.\<close>

definition alloc1 :: "'a list \<Rightarrow> 'a heap \<Rightarrow> addr \<times> 'a heap" where
  "alloc1 v h = (lim h, h\<lparr>arrays1 := (arrays1 h)(lim h := v), lim := Suc (lim h)\<rparr>)"

definition alloc2 :: "'a ndarray2 \<Rightarrow> 'a heap \<Rightarrow> addr \<times> 'a heap" where
  "alloc2 m h = (lim h, h\<lparr>arrays2 := (arrays2 h)(lim h := m), lim := Suc (lim h)\<rparr>)"

subsection \<open>Control flow\<close>

text \<open>\<open>range(n)\<close>: empty for \<open>n \<le> 0\<close>.\<close>

definition py_range :: "int \<Rightarrow> nat list" where
  "py_range n = [0..<nat n]"

text \<open>
  A \<open>for\<close> loop over a list of indices. An exception raised by the body ends the loop, and
  the store keeps what was written before it.
\<close>

fun for_loop :: "nat list \<Rightarrow> (nat \<Rightarrow> 's \<Rightarrow> (error + unit) \<times> 's) \<Rightarrow> 's \<Rightarrow> (error + unit) \<times> 's" where
  "for_loop [] body s = (Inr (), s)"
| "for_loop (i # rest) body s =
     (case body i s of
        (Inl err, s') \<Rightarrow> (Inl err, s')
      | (Inr u, s') \<Rightarrow> for_loop rest body s')"

subsection \<open>The loop update (cell 1 and \<open>VFI_loop\<close>)\<close>

text \<open>
  The statement \<open>Vmat[i, j] = e[i, j] + betafirm * V[j]\<close>: the right-hand side is evaluated
  first, left to right, then the element is stored.
\<close>

definition assign_Vmat ::
  "addr \<Rightarrow> addr \<Rightarrow> 'a::{plus,times} \<Rightarrow> addr \<Rightarrow> nat \<Rightarrow> nat \<Rightarrow> 'a heap \<Rightarrow> (error + unit) \<times> 'a heap" where
  "assign_Vmat V e betafirm Vmat i j h =
     (case getitem2 e i j h of
        Inl err \<Rightarrow> (Inl err, h)
      | Inr x \<Rightarrow>
          (case getitem1 V j h of
             Inl err \<Rightarrow> (Inl err, h)
           | Inr y \<Rightarrow> setitem2 Vmat i j (x + betafirm * y) h))"

text \<open>The timed loop of cell 1, on the arrays the global names refer to.\<close>

definition naive_loop ::
  "addr \<Rightarrow> addr \<Rightarrow> 'a::{plus,times} \<Rightarrow> int \<Rightarrow> addr \<Rightarrow> 'a heap \<Rightarrow> (error + unit) \<times> 'a heap" where
  "naive_loop V e betafirm sizek Vmat h =
     for_loop (py_range sizek)
       (\<lambda>i. for_loop (py_range sizek) (\<lambda>j. assign_Vmat V e betafirm Vmat i j)) h"

text \<open>
  \<open>VFI_loop(V, e, betafirm, sizek, Vmat)\<close>: the same loops, then \<open>return Vmat\<close>, the reference
  it was given. Here the function is read with the meaning of its Python text, every index
  checked. The code that \<open>@numba.jit\<close> compiles from it checks no index; it is \<open>VFI_loop_jit\<close>,
  on arrays in memory, and the two agree on arrays that are large enough for the grid.
\<close>

definition VFI_loop ::
  "addr \<Rightarrow> addr \<Rightarrow> 'a::{plus,times} \<Rightarrow> int \<Rightarrow> addr \<Rightarrow> 'a heap \<Rightarrow> (error + addr) \<times> 'a heap" where
  "VFI_loop V e betafirm sizek Vmat h =
     (case for_loop (py_range sizek)
             (\<lambda>i. for_loop (py_range sizek) (\<lambda>j. assign_Vmat V e betafirm Vmat i j)) h of
        (Inl err, h') \<Rightarrow> (Inl err, h')
      | (Inr u, h') \<Rightarrow> (Inr Vmat, h'))"

subsection \<open>Initialisation (cell 1)\<close>

text \<open>\<open>np.zeros(n)\<close> and \<open>np.zeros((r, c))\<close>; a negative dimension is a \<open>ValueError\<close>.\<close>

definition np_zeros1 :: "int \<Rightarrow> 'a::zero heap \<Rightarrow> (error + addr) \<times> 'a heap" where
  "np_zeros1 n h =
     (if n < 0 then (Inl ValueError, h)
      else (let (a, h') = alloc1 (replicate (nat n) 0) h in (Inr a, h')))"

definition np_zeros2 :: "int \<times> int \<Rightarrow> 'a::zero heap \<Rightarrow> (error + addr) \<times> 'a heap" where
  "np_zeros2 shape h =
     (let (r, c) = shape
      in if r < 0 \<or> c < 0 then (Inl ValueError, h)
         else (let (a, h') =
                     alloc2 \<lparr>nrows = nat r, ncols = nat c,
                             rows = replicate (nat r) (replicate (nat c) 0)\<rparr> h
               in (Inr a, h')))"

text \<open>
  \<open>Vmat = np.zeros((sizek, sizek)); e = np.zeros((sizek, sizek)); V = np.zeros(sizek)\<close>.
  The result is the references bound to \<open>Vmat\<close>, \<open>e\<close> and \<open>V\<close>, in this order.
\<close>

definition initialize_arrays :: "int \<Rightarrow> 'a::zero heap \<Rightarrow> (error + addr \<times> addr \<times> addr) \<times> 'a heap" where
  "initialize_arrays sizek h =
     (case np_zeros2 (sizek, sizek) h of
        (Inl err, h1) \<Rightarrow> (Inl err, h1)
      | (Inr Vmat, h1) \<Rightarrow>
          (case np_zeros2 (sizek, sizek) h1 of
             (Inl err, h2) \<Rightarrow> (Inl err, h2)
           | (Inr e, h2) \<Rightarrow>
               (case np_zeros1 sizek h2 of
                  (Inl err, h3) \<Rightarrow> (Inl err, h3)
                | (Inr V, h3) \<Rightarrow> (Inr (Vmat, e, V), h3))))"

subsection \<open>The vectorized update (cell 3)\<close>

text \<open>
  \<open>np.reshape(V, (1, n))\<close> of a one-dimensional array: the sizes must agree; a negative \<open>n\<close>
  stands for the size that fits.
\<close>

definition np_reshape_row :: "'a list \<Rightarrow> int \<Rightarrow> error + 'a ndarray2" where
  "np_reshape_row v n =
     (if n < 0 then Inr \<lparr>nrows = 1, ncols = length v, rows = [v]\<rparr>
      else if int (length v) \<noteq> n then Inl ValueError
      else Inr \<lparr>nrows = 1, ncols = nat n, rows = [v]\<rparr>)"

text \<open>\<open>np.tile(A, (reps, 1))\<close>: the rows of \<open>A\<close>, \<open>reps\<close> times one below the other.\<close>

definition np_tile_rows :: "'a ndarray2 \<Rightarrow> int \<Rightarrow> error + 'a ndarray2" where
  "np_tile_rows A reps =
     (if reps < 0 then Inl ValueError
      else Inr \<lparr>nrows = nrows A * nat reps, ncols = ncols A,
                rows = concat (replicate (nat reps) (rows A))\<rparr>)"

text \<open>\<open>c * A\<close> for a scalar \<open>c\<close>.\<close>

definition scalar_mult :: "'a::times \<Rightarrow> 'a ndarray2 \<Rightarrow> 'a ndarray2" where
  "scalar_mult c A = A\<lparr>rows := map (map (\<lambda>x. c * x)) (rows A)\<rparr>"

text \<open>
  \<open>A + B\<close> with numpy's broadcasting: along each axis the sizes are equal or one of them is 1,
  and an axis of size 1 is repeated.
\<close>

definition broadcast_dim :: "nat \<Rightarrow> nat \<Rightarrow> nat option" where
  "broadcast_dim a b =
     (if a = b then Some a else if a = 1 then Some b else if b = 1 then Some a else None)"

definition ndarray_add :: "'a::plus ndarray2 \<Rightarrow> 'a ndarray2 \<Rightarrow> error + 'a ndarray2" where
  "ndarray_add A B =
     (case (broadcast_dim (nrows A) (nrows B), broadcast_dim (ncols A) (ncols B)) of
        (Some r, Some c) \<Rightarrow>
          Inr \<lparr>nrows = r, ncols = c,
               rows = map (\<lambda>i. map (\<lambda>j.
                          rows A ! (if nrows A = 1 then 0 else i) ! (if ncols A = 1 then 0 else j)
                        + rows B ! (if nrows B = 1 then 0 else i) ! (if ncols B = 1 then 0 else j))
                        [0..<c]) [0..<r]\<rparr>
      | _ \<Rightarrow> Inl ValueError)"

text \<open>
  \<open>VV = np.tile(np.reshape(V, (1, sizek)), (sizek, 1)); Vmat = e + betafirm * VV\<close>.
  Both names are bound to new array objects; the result is the references bound to \<open>VV\<close> and
  \<open>Vmat\<close>.
\<close>

definition vectorized_update ::
  "addr \<Rightarrow> addr \<Rightarrow> 'a::{plus,times} \<Rightarrow> int \<Rightarrow> 'a heap \<Rightarrow> (error + addr \<times> addr) \<times> 'a heap" where
  "vectorized_update V e betafirm sizek h =
     (case np_reshape_row (arrays1 h V) sizek of
        Inl err \<Rightarrow> (Inl err, h)
      | Inr R \<Rightarrow>
          (case np_tile_rows R sizek of
             Inl err \<Rightarrow> (Inl err, h)
           | Inr T \<Rightarrow>
               (let (VV, h1) = alloc2 T h
                in (case ndarray_add (arrays2 h1 e) (scalar_mult betafirm (arrays2 h1 VV)) of
                      Inl err \<Rightarrow> (Inl err, h1)
                    | Inr S \<Rightarrow> (let (Vmat, h2) = alloc2 S h1 in (Inr (VV, Vmat), h2))))))"

subsection \<open>Binary64 arithmetic\<close>

text \<open>
  The entries of the notebook's arrays are Python floats, IEEE 754 binary64. A finite float
  is modelled by the rational number it denotes. A decimal literal and the result of \<open>+\<close> or
  \<open>*\<close> are rounded to the nearest float, ties to even: the magnitude is scaled by powers of 2
  into the range of a 53-bit significand (or down to the least exponent, for subnormal
  numbers) and rounded to an integer there. Overflow, infinities, NaN and the sign of zero are
  not modelled.
\<close>

definition round_half_even :: "rat \<Rightarrow> int" where
  "round_half_even x =
     (let n = \<lfloor>x\<rfloor>; d = x - of_int n
      in if d < 1 / 2 then n else if 1 / 2 < d then n + 1 else if even n then n else n + 1)"

function scale_down :: "rat \<Rightarrow> int \<Rightarrow> rat \<times> int" where
  "scale_down a q = (if 2 ^ 53 \<le> a then scale_down (a / 2) (q + 1) else (a, q))"
  by pat_completeness auto
termination
proof (relation "measure (\<lambda>(a, q). nat \<lfloor>a\<rfloor>)")
  show "wf (measure (\<lambda>(a, q). nat \<lfloor>a\<rfloor>))" by simp
next
  fix a :: rat and q :: int
  assume "2 ^ 53 \<le> a"
  then have "a / 2 \<le> a - 1" by simp
  then have "\<lfloor>a / 2\<rfloor> \<le> \<lfloor>a - 1\<rfloor>" by (rule floor_mono)
  moreover from \<open>2 ^ 53 \<le> a\<close> have "1 \<le> \<lfloor>a\<rfloor>" by (simp add: le_floor_iff)
  ultimately show "((a / 2, q + 1), (a, q)) \<in> measure (\<lambda>(a, q). nat \<lfloor>a\<rfloor>)"
    by simp
qed

function scale_up :: "rat \<Rightarrow> int \<Rightarrow> rat \<times> int" where
  "scale_up a q = (if a < 2 ^ 52 \<and> - 1074 < q then scale_up (a * 2) (q - 1) else (a, q))"
  by pat_completeness auto
termination
  by (relation "measure (\<lambda>(a, q). nat (q + 1074))") auto

definition round64 :: "rat \<Rightarrow> rat" where
  "round64 x =
     (if x = 0 then 0
      else (let (a, q) = scale_down \<bar>x\<bar> 0; (m, p) = scale_up a q
            in sgn x * of_int (round_half_even m) * 2 powi p))"

text \<open>The type of floats, with the rounded operations.\<close>

datatype float64 = Float64 (the_rat: rat)

instantiation float64 :: "{zero, plus, times}"
begin

definition zero_float64 :: float64 where
  "0 = Float64 0"

definition plus_float64 :: "float64 \<Rightarrow> float64 \<Rightarrow> float64" where
  "x + y = Float64 (round64 (the_rat x + the_rat y))"

definition times_float64 :: "float64 \<Rightarrow> float64 \<Rightarrow> float64" where
  "x * y = Float64 (round64 (the_rat x * the_rat y))"

instance ..

end

text \<open>
  Subtraction is rounded as well; the absolute value is exact, and floats are compared as
  the numbers they denote.
\<close>

instantiation float64 :: "{minus, abs, ord}"
begin

definition minus_float64 :: "float64 \<Rightarrow> float64 \<Rightarrow> float64" where
  "x - y = Float64 (round64 (the_rat x - the_rat y))"

definition abs_float64 :: "float64 \<Rightarrow> float64" where
  "\<bar>x\<bar> = Float64 \<bar>the_rat x\<bar>"

definition less_eq_float64 :: "float64 \<Rightarrow> float64 \<Rightarrow> bool" where
  "x \<le> y \<longleftrightarrow> the_rat x \<le> the_rat y"

definition less_float64 :: "float64 \<Rightarrow> float64 \<Rightarrow> bool" where
  "x < y \<longleftrightarrow> the_rat x < the_rat y"

instance ..

end

text \<open>The float that a decimal literal denotes.\<close>

definition float_of :: "rat \<Rightarrow> float64" where
  "float_of x = Float64 (round64 x)"

subsection \<open>What the loops are to compute\<close>

text \<open>
  The arrays are large enough for the indices \<open>0, \<dots>, N - 1\<close> the loops use, and the
  arguments are well-formed for a grid of size \<open>N\<close>: \<open>V\<close> of length \<open>N\<close>, \<open>e\<close> and
  \<open>Vmat\<close> of shape \<open>(N, N)\<close>.
\<close>

definition in_bounds :: "nat \<Rightarrow> addr \<Rightarrow> addr \<Rightarrow> addr \<Rightarrow> 'a heap \<Rightarrow> bool" where
  "in_bounds N V e Vmat h \<longleftrightarrow>
     N \<le> nrows (arrays2 h e) \<and> N \<le> ncols (arrays2 h e) \<and> N \<le> length (arrays1 h V) \<and>
     N \<le> nrows (arrays2 h Vmat) \<and> N \<le> ncols (arrays2 h Vmat)"

definition well_formed :: "nat \<Rightarrow> addr \<Rightarrow> addr \<Rightarrow> addr \<Rightarrow> 'a heap \<Rightarrow> bool" where
  "well_formed N V e Vmat h \<longleftrightarrow>
     length (arrays1 h V) = N \<and> has_shape N N (arrays2 h e) \<and> has_shape N N (arrays2 h Vmat)"

text \<open>
  A row whose first \<open>n\<close> entries are replaced by \<open>g 0, \<dots>, g (n - 1)\<close>, and rows whose first
  \<open>k\<close> rows are replaced in this way by \<open>f i\<close>.
\<close>

definition upd_row :: "nat \<Rightarrow> (nat \<Rightarrow> 'a) \<Rightarrow> 'a list \<Rightarrow> 'a list" where
  "upd_row n g r = map (\<lambda>j. if j < n then g j else r ! j) [0..<length r]"

definition upd_rows :: "nat \<Rightarrow> nat \<Rightarrow> (nat \<Rightarrow> nat \<Rightarrow> 'a) \<Rightarrow> 'a list list \<Rightarrow> 'a list list" where
  "upd_rows k n f rs =
     map (\<lambda>i. if i < k then upd_row n (f i) (rs ! i) else rs ! i) [0..<length rs]"

text \<open>
  The store after the loops have run over the grid of size \<open>N\<close>: the leading \<open>N\<close> by \<open>N\<close>
  block of \<open>Vmat\<close> holds \<open>e[i, j] + betafirm * V[j]\<close>, read in the store before the loops.
\<close>

definition loop_store ::
  "addr \<Rightarrow> addr \<Rightarrow> 'a::{plus,times} \<Rightarrow> nat \<Rightarrow> addr \<Rightarrow> 'a heap \<Rightarrow> 'a heap" where
  "loop_store V e betafirm N Vmat h =
     set_rows Vmat
       (upd_rows N N (\<lambda>i j. rows (arrays2 h e) ! i ! j + betafirm * arrays1 h V ! j)
          (rows (arrays2 h Vmat))) h"

text \<open>The \<open>N\<close> by \<open>N\<close> array of the values \<open>e[i, j] + betafirm * V[j]\<close>.\<close>

definition update_matrix :: "'a::{plus,times} list \<Rightarrow> 'a ndarray2 \<Rightarrow> 'a \<Rightarrow> nat \<Rightarrow> 'a ndarray2" where
  "update_matrix v E betafirm N =
     \<lparr>nrows = N, ncols = N,
      rows = map (\<lambda>i. map (\<lambda>j. rows E ! i ! j + betafirm * v ! j) [0..<N]) [0..<N]\<rparr>"

text \<open>
  What a run of the loops may change in the store \<open>h\<close>: the rows of the array at \<open>Vmat\<close>, and
  nothing else.
\<close>

definition frame :: "addr \<Rightarrow> 'a heap \<Rightarrow> 'a heap \<Rightarrow> bool" where
  "frame Vmat h s \<longleftrightarrow>
     arrays1 s = arrays1 h \<and> lim s = lim h \<and>
     (\<forall>a. a \<noteq> Vmat \<longrightarrow> arrays2 s a = arrays2 h a) \<and>
     nrows (arrays2 s Vmat) = nrows (arrays2 h Vmat) \<and>
     ncols (arrays2 s Vmat) = ncols (arrays2 h Vmat)"

subsection \<open>Arrays in memory\<close>

text \<open>
  numpy keeps the entries of an array in a buffer, and an array object is a view of a buffer:
  where it starts, its shape, and the stride of each axis. Two views can share cells, as
  \<open>Vmat[0]\<close> shares the first row of \<open>Vmat\<close>. The second model is at this level: a flat memory
  of entries, and views with a start and strides counted in entries (not negative, as for the
  arrays that \<open>np.zeros\<close> returns and their slices with positive steps).
\<close>

type_synonym 'a memory = "nat \<Rightarrow> 'a"

record view1 =
  start1 :: nat
  len1 :: nat
  step1 :: nat

record view2 =
  start2 :: nat
  dim_r :: nat
  dim_c :: nat
  step_r :: nat
  step_c :: nat

text \<open>The cell of an index, and the cells of a view.\<close>

definition cell1 :: "view1 \<Rightarrow> nat \<Rightarrow> nat" where
  "cell1 v j = start1 v + j * step1 v"

definition cell2 :: "view2 \<Rightarrow> nat \<Rightarrow> nat \<Rightarrow> nat" where
  "cell2 a i j = start2 a + i * step_r a + j * step_c a"

definition cells1 :: "view1 \<Rightarrow> nat list" where
  "cells1 v = map (cell1 v) [0..<len1 v]"

definition cells2 :: "view2 \<Rightarrow> nat list" where
  "cells2 a = concat (map (\<lambda>i. map (cell2 a i) [0..<dim_c a]) [0..<dim_r a])"

text \<open>
  Indexing as the interpreter does it: the index is checked against the shape of the view,
  and an index out of range raises \<open>IndexError\<close>.
\<close>

definition load1 :: "view1 \<Rightarrow> nat \<Rightarrow> 'a memory \<Rightarrow> error + 'a" where
  "load1 v j m = (if j < len1 v then Inr (m (cell1 v j)) else Inl IndexError)"

definition load2 :: "view2 \<Rightarrow> nat \<Rightarrow> nat \<Rightarrow> 'a memory \<Rightarrow> error + 'a" where
  "load2 a i j m = (if i < dim_r a \<and> j < dim_c a then Inr (m (cell2 a i j)) else Inl IndexError)"

definition store2 :: "view2 \<Rightarrow> nat \<Rightarrow> nat \<Rightarrow> 'a \<Rightarrow> 'a memory \<Rightarrow> (error + unit) \<times> 'a memory" where
  "store2 a i j x m =
     (if i < dim_r a \<and> j < dim_c a then (Inr (), m(cell2 a i j := x)) else (Inl IndexError, m))"

text \<open>The statement \<open>Vmat[i, j] = e[i, j] + betafirm * V[j]\<close> and the loop of cell 1, interpreted.\<close>

definition assign_Vmat_mem ::
  "view1 \<Rightarrow> view2 \<Rightarrow> 'a::{plus,times} \<Rightarrow> view2 \<Rightarrow> nat \<Rightarrow> nat \<Rightarrow> 'a memory \<Rightarrow> (error + unit) \<times> 'a memory" where
  "assign_Vmat_mem V e betafirm Vmat i j m =
     (case load2 e i j m of
        Inl err \<Rightarrow> (Inl err, m)
      | Inr x \<Rightarrow>
          (case load1 V j m of
             Inl err \<Rightarrow> (Inl err, m)
           | Inr y \<Rightarrow> store2 Vmat i j (x + betafirm * y) m))"

definition naive_loop_mem ::
  "view1 \<Rightarrow> view2 \<Rightarrow> 'a::{plus,times} \<Rightarrow> int \<Rightarrow> view2 \<Rightarrow> 'a memory \<Rightarrow> (error + unit) \<times> 'a memory" where
  "naive_loop_mem V e betafirm sizek Vmat m =
     for_loop (py_range sizek)
       (\<lambda>i. for_loop (py_range sizek) (\<lambda>j. assign_Vmat_mem V e betafirm Vmat i j)) m"

text \<open>
  \<open>VFI_loop\<close> as \<open>@numba.jit()\<close> compiles it. numba emits no index check: the statement
  computes the three cells from the indices and the strides and accesses them, whatever the
  shapes are, so the compiled function raises nothing and always returns the \<open>Vmat\<close> it was
  given. Out of range it reads and writes the cells that the address arithmetic gives; the
  memory of the model has no end, so in the model such a run always completes; that the
  operating system can stop a real process is left out.
\<close>

definition jit_assign ::
  "view1 \<Rightarrow> view2 \<Rightarrow> 'a::{plus,times} \<Rightarrow> view2 \<Rightarrow> nat \<Rightarrow> nat \<Rightarrow> 'a memory \<Rightarrow> 'a memory" where
  "jit_assign V e betafirm Vmat i j m =
     m(cell2 Vmat i j := m (cell2 e i j) + betafirm * m (cell1 V j))"

definition VFI_loop_jit ::
  "view1 \<Rightarrow> view2 \<Rightarrow> 'a::{plus,times} \<Rightarrow> int \<Rightarrow> view2 \<Rightarrow> 'a memory \<Rightarrow> view2 \<times> 'a memory" where
  "VFI_loop_jit V e betafirm sizek Vmat m =
     (Vmat,
      fold (\<lambda>i. fold (\<lambda>j. jit_assign V e betafirm Vmat i j) (py_range sizek)) (py_range sizek) m)"

text \<open>The arrays are large enough for a grid of size \<open>N\<close>.\<close>

definition fits :: "nat \<Rightarrow> view1 \<Rightarrow> view2 \<Rightarrow> view2 \<Rightarrow> bool" where
  "fits N V e Vmat \<longleftrightarrow>
     N \<le> dim_r e \<and> N \<le> dim_c e \<and> N \<le> len1 V \<and> N \<le> dim_r Vmat \<and> N \<le> dim_c Vmat"

text \<open>The memory \<open>s\<close> differs from \<open>m\<close> in cells of \<open>Vmat\<close> only.\<close>

definition outside :: "view2 \<Rightarrow> 'a memory \<Rightarrow> 'a memory \<Rightarrow> bool" where
  "outside Vmat m s \<longleftrightarrow> (\<forall>c. c \<notin> set (cells2 Vmat) \<longrightarrow> s c = m c)"

text \<open>
  The view of a new array, as \<open>np.zeros\<close> lays it out (row after row), and a memory given by
  the list of its first cells.
\<close>

definition contiguous1 :: "nat \<Rightarrow> nat \<Rightarrow> view1" where
  "contiguous1 a n = \<lparr>start1 = a, len1 = n, step1 = 1\<rparr>"

definition contiguous2 :: "nat \<Rightarrow> nat \<Rightarrow> nat \<Rightarrow> view2" where
  "contiguous2 a r c = \<lparr>start2 = a, dim_r = r, dim_c = c, step_r = c, step_c = 1\<rparr>"

definition memory_of :: "'a \<Rightarrow> 'a list \<Rightarrow> 'a memory" where
  "memory_of d xs c = (if c < length xs then xs ! c else d)"

text \<open>
  The memory \<open>m\<close> holds, in the cells of a view, the entries of an array of the store.
\<close>

definition holds1 :: "'a memory \<Rightarrow> view1 \<Rightarrow> 'a list \<Rightarrow> bool" where
  "holds1 m v xs \<longleftrightarrow> len1 v = length xs \<and> map (\<lambda>j. m (cell1 v j)) [0..<length xs] = xs"

definition holds2 :: "'a memory \<Rightarrow> view2 \<Rightarrow> 'a ndarray2 \<Rightarrow> bool" where
  "holds2 m a A \<longleftrightarrow>
     dim_r a = nrows A \<and> dim_c a = ncols A \<and>
     map (\<lambda>i. map (\<lambda>j. m (cell2 a i j)) [0..<ncols A]) [0..<nrows A] = rows A"

subsection \<open>Where a failing loop stops, and what broadcasting gives\<close>

text \<open>
  The interpreted loop can use the rows that \<open>e\<close> and \<open>Vmat\<close> both have, and the columns that
  \<open>e\<close>, \<open>V\<close> and \<open>Vmat\<close> all have.
\<close>

definition usable_rows :: "addr \<Rightarrow> addr \<Rightarrow> 'a heap \<Rightarrow> nat" where
  "usable_rows e Vmat h = min (nrows (arrays2 h e)) (nrows (arrays2 h Vmat))"

definition usable_cols :: "addr \<Rightarrow> addr \<Rightarrow> addr \<Rightarrow> 'a heap \<Rightarrow> nat" where
  "usable_cols V e Vmat h =
     min (ncols (arrays2 h e)) (min (length (arrays1 h V)) (ncols (arrays2 h Vmat)))"

text \<open>The store in which the first \<open>n\<close> entries of the first \<open>k\<close> rows of \<open>Vmat\<close> are written.\<close>

definition block_store ::
  "addr \<Rightarrow> addr \<Rightarrow> 'a::{plus,times} \<Rightarrow> nat \<Rightarrow> nat \<Rightarrow> addr \<Rightarrow> 'a heap \<Rightarrow> 'a heap" where
  "block_store V e betafirm k n Vmat h =
     set_rows Vmat
       (upd_rows k n (\<lambda>i j. rows (arrays2 h e) ! i ! j + betafirm * arrays1 h V ! j)
          (rows (arrays2 h Vmat))) h"




subsection \<open>Stores for the examples\<close>

text \<open>
  The store of a session that has created no array, a two-dimensional array from its rows
  (as \<open>np.array\<close> builds it), and the store in which \<open>V\<close>, \<open>e\<close> and \<open>Vmat\<close> have been created
  in this order, at the addresses 0, 1 and 2.
\<close>

definition empty_heap :: "'a heap" where
  "empty_heap = \<lparr>arrays1 = (\<lambda>a. []), arrays2 = (\<lambda>a. \<lparr>nrows = 0, ncols = 0, rows = []\<rparr>), lim = 0\<rparr>"

definition matrix :: "'a list list \<Rightarrow> 'a ndarray2" where
  "matrix rs = \<lparr>nrows = length rs, ncols = (case rs of [] \<Rightarrow> 0 | r # _ \<Rightarrow> length r), rows = rs\<rparr>"

definition store_of :: "'a list \<Rightarrow> 'a list list \<Rightarrow> 'a list list \<Rightarrow> 'a heap" where
  "store_of v es vs = snd (alloc2 (matrix vs) (snd (alloc2 (matrix es) (snd (alloc1 v empty_heap)))))"

section \<open>Lists, stores and loops\<close>

subsection \<open>Loops over \<open>range\<close>\<close>

lemma for_loop_append:
  "for_loop (xs @ ys) body s =
     (case for_loop xs body s of
        (Inl err, s') \<Rightarrow> (Inl err, s')
      | (Inr u, s') \<Rightarrow> for_loop ys body s')"
  by (induction xs arbitrary: s) (auto split: prod.splits sum.splits)

lemma for_loop_upt_Suc:
  "for_loop [0..<Suc n] body s =
     (case for_loop [0..<n] body s of
        (Inl err, s') \<Rightarrow> (Inl err, s')
      | (Inr u, s') \<Rightarrow> body n s')"
  by (simp add: for_loop_append split: prod.splits sum.splits)

subsection \<open>Rows and stores\<close>

lemma length_upd_row [simp]: "length (upd_row n g r) = length r"
  by (simp add: upd_row_def)

lemma nth_upd_row: "j < length r \<Longrightarrow> upd_row n g r ! j = (if j < n then g j else r ! j)"
  by (simp add: upd_row_def)

lemma upd_row_0 [simp]: "upd_row 0 g r = r"
  by (simp add: upd_row_def map_nth)

lemma upd_row_Suc:
  "n < length r \<Longrightarrow> x = g n \<Longrightarrow> (upd_row n g r)[n := x] = upd_row (Suc n) g r"
  by (rule nth_equalityI) (auto simp: nth_upd_row nth_list_update)

lemma length_upd_rows [simp]: "length (upd_rows k n f rs) = length rs"
  by (simp add: upd_rows_def)

lemma nth_upd_rows:
  "i < length rs \<Longrightarrow> upd_rows k n f rs ! i = (if i < k then upd_row n (f i) (rs ! i) else rs ! i)"
  by (simp add: upd_rows_def)

lemma upd_rows_0 [simp]: "upd_rows 0 n f rs = rs"
  by (simp add: upd_rows_def map_nth)

lemma upd_rows_Suc:
  "k < length rs \<Longrightarrow> r' = upd_row n (f k) (rs ! k) \<Longrightarrow>
     (upd_rows k n f rs)[k := r'] = upd_rows (Suc k) n f rs"
  by (rule nth_equalityI) (auto simp: nth_upd_rows nth_list_update)

lemma arrays1_set_rows [simp]: "arrays1 (set_rows a rs h) = arrays1 h"
  by (simp add: set_rows_def)

lemma lim_set_rows [simp]: "lim (set_rows a rs h) = lim h"
  by (simp add: set_rows_def)

lemma arrays2_set_rows:
  "arrays2 (set_rows a rs h) b = (if b = a then (arrays2 h a)\<lparr>rows := rs\<rparr> else arrays2 h b)"
  by (simp add: set_rows_def)

lemma set_rows_set_rows [simp]: "set_rows a rs' (set_rows a rs h) = set_rows a rs' h"
  by (simp add: set_rows_def)

lemma set_rows_same [simp]: "set_rows a (rows (arrays2 h a)) h = h"
  by (simp add: set_rows_def)

subsection \<open>The nested loops on arrays that are large enough\<close>

text \<open>
  One assignment, then the inner loop over a row, then the outer loop over the rows. The
  element of \<open>e\<close> is read in the current store; when \<open>Vmat\<close> is the array \<open>e\<close> itself, the
  element has not been written yet, so it is the one of the store before the loops.
\<close>

lemma assign_Vmat_step:
  assumes "i < nrows (arrays2 h e)" "j < ncols (arrays2 h e)" "j < length (arrays1 h V)"
    and "i < nrows (arrays2 h Vmat)" "j < ncols (arrays2 h Vmat)"
  shows "assign_Vmat V e betafirm Vmat i j h =
     (Inr (), set_rows Vmat ((rows (arrays2 h Vmat))
        [i := (rows (arrays2 h Vmat) ! i)[j := rows (arrays2 h e) ! i ! j + betafirm * arrays1 h V ! j]]) h)"
  using assms by (simp add: assign_Vmat_def getitem2_def getitem1_def setitem2_def Let_def)

lemma inner_loop:
  assumes "i < nrows (arrays2 h e)" "n \<le> ncols (arrays2 h e)" "n \<le> length (arrays1 h V)"
    and "i < nrows (arrays2 h Vmat)" "n \<le> ncols (arrays2 h Vmat)"
    and "length (rows (arrays2 h Vmat)) = nrows (arrays2 h Vmat)"
    and "length (rows (arrays2 h Vmat) ! i) = ncols (arrays2 h Vmat)"
  shows "for_loop [0..<n] (assign_Vmat V e betafirm Vmat i) h =
     (Inr (), set_rows Vmat ((rows (arrays2 h Vmat))
        [i := upd_row n (\<lambda>j. rows (arrays2 h e) ! i ! j + betafirm * arrays1 h V ! j)
                (rows (arrays2 h Vmat) ! i)]) h)"
  using assms
proof (induction n)
  case 0
  then show ?case by simp
next
  case (Suc n)
  let ?g = "\<lambda>j. rows (arrays2 h e) ! i ! j + betafirm * arrays1 h V ! j"
  let ?r = "rows (arrays2 h Vmat) ! i"
  let ?hn = "set_rows Vmat ((rows (arrays2 h Vmat))[i := upd_row n ?g ?r]) h"
  from Suc have IH: "for_loop [0..<n] (assign_Vmat V e betafirm Vmat i) h = (Inr (), ?hn)"
    by simp
  from Suc.prems have e_n: "rows (arrays2 ?hn e) ! i ! n = rows (arrays2 h e) ! i ! n"
    by (simp add: arrays2_set_rows nth_upd_row)
  from Suc.prems have shapes: "i < nrows (arrays2 ?hn e)" "n < ncols (arrays2 ?hn e)"
      "n < length (arrays1 ?hn V)" "i < nrows (arrays2 ?hn Vmat)" "n < ncols (arrays2 ?hn Vmat)"
    by (simp_all add: arrays2_set_rows)
  from Suc.prems have rows_n:
    "rows (arrays2 ?hn Vmat) = (rows (arrays2 h Vmat))[i := upd_row n ?g ?r]"
    by (simp add: arrays2_set_rows)
  from Suc.prems have new_row:
    "(upd_row n ?g ?r)[n := ?g n] = upd_row (Suc n) ?g ?r"
    by (simp add: upd_row_Suc)
  from Suc.prems have step: "assign_Vmat V e betafirm Vmat i n ?hn =
      (Inr (), set_rows Vmat ((rows (arrays2 h Vmat))[i := upd_row (Suc n) ?g ?r]) h)"
    by (simp add: assign_Vmat_step [OF shapes] e_n rows_n new_row)
  show ?case
    by (simp only: for_loop_upt_Suc IH step prod.case sum.case)
qed

lemma outer_loop:
  assumes "N \<le> nrows (arrays2 h e)" "N \<le> ncols (arrays2 h e)" "N \<le> length (arrays1 h V)"
    and "N \<le> nrows (arrays2 h Vmat)" "N \<le> ncols (arrays2 h Vmat)"
    and "length (rows (arrays2 h Vmat)) = nrows (arrays2 h Vmat)"
    and "\<And>i. i < N \<Longrightarrow> length (rows (arrays2 h Vmat) ! i) = ncols (arrays2 h Vmat)"
    and "k \<le> N"
  shows "for_loop [0..<k] (\<lambda>i. for_loop [0..<N] (assign_Vmat V e betafirm Vmat i)) h =
     (Inr (), set_rows Vmat
        (upd_rows k N (\<lambda>i j. rows (arrays2 h e) ! i ! j + betafirm * arrays1 h V ! j)
           (rows (arrays2 h Vmat))) h)"
  using assms(8)
proof (induction k)
  case 0
  then show ?case by simp
next
  case (Suc k)
  let ?f = "\<lambda>i j. rows (arrays2 h e) ! i ! j + betafirm * arrays1 h V ! j"
  let ?rs = "rows (arrays2 h Vmat)"
  let ?hk = "set_rows Vmat (upd_rows k N ?f ?rs) h"
  from Suc have IH: "for_loop [0..<k] (\<lambda>i. for_loop [0..<N] (assign_Vmat V e betafirm Vmat i)) h
      = (Inr (), ?hk)"
    by simp
  from Suc.prems assms have k: "k < nrows (arrays2 h e)" "k < nrows (arrays2 h Vmat)" "k < length ?rs" "k < N"
    by simp_all
  have e_k: "rows (arrays2 ?hk e) ! k = rows (arrays2 h e) ! k"
    using k by (simp add: arrays2_set_rows nth_upd_rows)
  have row: "for_loop [0..<N] (assign_Vmat V e betafirm Vmat k) ?hk =
      (Inr (), set_rows Vmat (upd_rows (Suc k) N ?f ?rs) h)"
    using k assms(1-7)
    by (subst inner_loop) (simp_all add: arrays2_set_rows nth_upd_rows e_k upd_rows_Suc)
  show ?case
    by (simp only: for_loop_upt_Suc IH row prod.case sum.case)
qed

subsection \<open>The result of a run\<close>

lemma has_shape_nth:
  "has_shape r c m \<Longrightarrow> i < r \<Longrightarrow> length (rows m ! i) = c"
  by (simp add: has_shape_def list_all_length)

lemma loops_run:
  assumes "in_bounds N V e Vmat h"
    and "has_shape (nrows (arrays2 h Vmat)) (ncols (arrays2 h Vmat)) (arrays2 h Vmat)"
  shows "for_loop (py_range (int N))
           (\<lambda>i. for_loop (py_range (int N)) (\<lambda>j. assign_Vmat V e betafirm Vmat i j)) h
         = (Inr (), loop_store V e betafirm N Vmat h)"
proof -
  have len: "length (rows (arrays2 h Vmat)) = nrows (arrays2 h Vmat)"
    using assms(2) by (simp add: has_shape_def)
  have row: "\<And>i. i < N \<Longrightarrow> length (rows (arrays2 h Vmat) ! i) = ncols (arrays2 h Vmat)"
    using assms by (simp add: has_shape_nth in_bounds_def)
  show ?thesis
    using assms(1) outer_loop [of N h e V Vmat N betafirm, OF _ _ _ _ _ len row]
    by (simp add: in_bounds_def py_range_def loop_store_def)
qed

lemma naive_loop_run:
  assumes "in_bounds N V e Vmat h"
    and "has_shape (nrows (arrays2 h Vmat)) (ncols (arrays2 h Vmat)) (arrays2 h Vmat)"
  shows "naive_loop V e betafirm (int N) Vmat h = (Inr (), loop_store V e betafirm N Vmat h)"
  unfolding naive_loop_def by (rule loops_run [OF assms])

lemma VFI_loop_run:
  assumes "in_bounds N V e Vmat h"
    and "has_shape (nrows (arrays2 h Vmat)) (ncols (arrays2 h Vmat)) (arrays2 h Vmat)"
  shows "VFI_loop V e betafirm (int N) Vmat h = (Inr Vmat, loop_store V e betafirm N Vmat h)"
  unfolding VFI_loop_def by (simp add: loops_run [OF assms])

lemma well_formed_in_bounds: "well_formed N V e Vmat h \<Longrightarrow> in_bounds N V e Vmat h"
  by (simp add: well_formed_def in_bounds_def has_shape_def)

lemma well_formed_Vmat:
  "well_formed N V e Vmat h \<Longrightarrow>
     has_shape (nrows (arrays2 h Vmat)) (ncols (arrays2 h Vmat)) (arrays2 h Vmat)"
  by (simp add: well_formed_def has_shape_def)

lemma upd_rows_full:
  assumes "length rs = N" and "\<And>i. i < N \<Longrightarrow> length (rs ! i) = N"
  shows "upd_rows N N f rs = map (\<lambda>i. map (\<lambda>j. f i j) [0..<N]) [0..<N]"
  using assms by (simp add: upd_rows_def upd_row_def)

lemma loop_store_well_formed:
  assumes "well_formed N V e Vmat h"
  shows "arrays2 (loop_store V e betafirm N Vmat h) Vmat =
           update_matrix (arrays1 h V) (arrays2 h e) betafirm N"
proof -
  from assms have "length (rows (arrays2 h Vmat)) = N"
    and "\<And>i. i < N \<Longrightarrow> length (rows (arrays2 h Vmat) ! i) = N"
    and "nrows (arrays2 h Vmat) = N" "ncols (arrays2 h Vmat) = N"
    by (auto simp: well_formed_def has_shape_def list_all_length)
  then show ?thesis
    by (simp add: loop_store_def arrays2_set_rows upd_rows_full update_matrix_def)
qed

lemma has_shape_update_matrix: "has_shape N N (update_matrix v E betafirm N)"
  by (simp add: has_shape_def update_matrix_def list_all_iff)

lemma getitem2_update_matrix:
  assumes "arrays2 h a = update_matrix v E betafirm N" "i < N" "j < N"
  shows "getitem2 a i j h = Inr (rows E ! i ! j + betafirm * v ! j)"
  using assms by (simp add: getitem2_def update_matrix_def)

lemma store_of_simps [simp]:
  "arrays1 (store_of v es vs) 0 = v"
  "arrays2 (store_of v es vs) (Suc 0) = matrix es"
  "arrays2 (store_of v es vs) 2 = matrix vs"
  "lim (store_of v es vs) = 3"
  by (simp_all add: store_of_def alloc1_def alloc2_def empty_heap_def)

lemma getitem2_in_range:
  "i < nrows (arrays2 h a) \<Longrightarrow> j < ncols (arrays2 h a) \<Longrightarrow>
     getitem2 a i j h = Inr (rows (arrays2 h a) ! i ! j)"
  by (simp add: getitem2_def)

lemma getitem1_in_range:
  "j < length (arrays1 h a) \<Longrightarrow> getitem1 a j h = Inr (arrays1 h a ! j)"
  by (simp add: getitem1_def)

subsection \<open>What the loops change\<close>

text \<open>
  An invariant of the body holds after the loop whatever the outcome. In the store of array
  objects the loops change the rows of the array at \<open>Vmat\<close> and nothing else.
\<close>

lemma frame_refl: "frame Vmat h h"
  by (simp add: frame_def)

lemma for_loop_preserves:
  assumes "\<And>i s. P s \<Longrightarrow> P (snd (body i s))" and "P s"
  shows "P (snd (for_loop xs body s))"
  using assms(2)
proof (induction xs arbitrary: s)
  case Nil
  then show ?case by simp
next
  case (Cons x xs)
  from assms(1) [OF Cons.prems, of x] have "P (snd (body x s))" .
  then show ?case
    using Cons.IH [of "snd (body x s)"]
    by (cases "body x s") (auto split: sum.splits)
qed

lemma frame_assign_Vmat: "frame Vmat h s \<Longrightarrow> frame Vmat h (snd (assign_Vmat V e betafirm Vmat i j s))"
  by (auto simp: frame_def assign_Vmat_def setitem2_def set_rows_def Let_def split: sum.splits)

lemma frame_inner:
  "frame Vmat h s \<Longrightarrow> frame Vmat h (snd (for_loop xs (assign_Vmat V e betafirm Vmat i) s))"
  by (rule for_loop_preserves) (rule frame_assign_Vmat)

lemma frame_loops:
  "frame Vmat h (snd (for_loop xs (\<lambda>i. for_loop ys (assign_Vmat V e betafirm Vmat i)) h))"
  by (rule for_loop_preserves [where P = "frame Vmat h"]) (simp_all add: frame_inner frame_refl)

lemma frame_naive_loop: "frame Vmat h (snd (naive_loop V e betafirm sizek Vmat h))"
  by (simp add: naive_loop_def frame_loops)

lemma snd_VFI_loop: "snd (VFI_loop V e betafirm sizek Vmat h) = snd (naive_loop V e betafirm sizek Vmat h)"
  by (simp add: VFI_loop_def naive_loop_def split: prod.splits sum.splits)

subsection \<open>The vectorized update and \<open>np.zeros\<close>\<close>

lemma concat_replicate_single: "concat (replicate n [x]) = replicate n x"
  by (induction n) simp_all

lemma ndarray_add_same_shape:
  assumes "nrows A = N" "ncols A = N" "nrows B = N" "ncols B = N"
  shows "ndarray_add A B =
     Inr \<lparr>nrows = N, ncols = N,
          rows = map (\<lambda>i. map (\<lambda>j. rows A ! i ! j + rows B ! i ! j) [0..<N]) [0..<N]\<rparr>"
  using assms by (auto simp: ndarray_add_def broadcast_dim_def)

lemma vectorized_update_run:
  assumes "length (arrays1 h V) = N" and "nrows (arrays2 h e) = N" and "ncols (arrays2 h e) = N"
    and "e < lim h"
  shows "vectorized_update V e betafirm (int N) h =
     (Inr (lim h, Suc (lim h)),
      h\<lparr>arrays2 := (arrays2 h)
            (lim h := \<lparr>nrows = N, ncols = N, rows = replicate N (arrays1 h V)\<rparr>,
             Suc (lim h) := update_matrix (arrays1 h V) (arrays2 h e) betafirm N),
        lim := Suc (Suc (lim h))\<rparr>)"
proof -
  let ?v = "arrays1 h V"
  let ?T = "\<lparr>nrows = N, ncols = N, rows = replicate N ?v\<rparr>"
  let ?h1 = "h\<lparr>arrays2 := (arrays2 h)(lim h := ?T), lim := Suc (lim h)\<rparr>"
  have R: "np_reshape_row ?v (int N) = Inr \<lparr>nrows = Suc 0, ncols = N, rows = [?v]\<rparr>"
    using assms(1) by (simp add: np_reshape_row_def)
  have T: "np_tile_rows \<lparr>nrows = Suc 0, ncols = N, rows = [?v]\<rparr> (int N) = Inr ?T"
    by (simp add: np_tile_rows_def concat_replicate_single)
  have A: "alloc2 ?T h = (lim h, ?h1)"
    by (simp add: alloc2_def)
  have e1: "arrays2 ?h1 e = arrays2 h e" and VV: "arrays2 ?h1 (lim h) = ?T"
    using assms(4) by simp_all
  have "ndarray_add (arrays2 h e) (scalar_mult betafirm ?T) =
     Inr \<lparr>nrows = N, ncols = N,
          rows = map (\<lambda>i. map (\<lambda>j. rows (arrays2 h e) ! i ! j + rows (scalar_mult betafirm ?T) ! i ! j)
                  [0..<N]) [0..<N]\<rparr>"
    by (rule ndarray_add_same_shape) (simp_all add: assms scalar_mult_def)
  also have "\<dots> = Inr (update_matrix ?v (arrays2 h e) betafirm N)"
    using assms(1) by (simp add: update_matrix_def scalar_mult_def)
  finally have S: "ndarray_add (arrays2 ?h1 e) (scalar_mult betafirm (arrays2 ?h1 (lim h)))
      = Inr (update_matrix ?v (arrays2 h e) betafirm N)"
    by (simp only: e1 VV)
  have B: "alloc2 (update_matrix ?v (arrays2 h e) betafirm N) ?h1 =
      (Suc (lim h), h\<lparr>arrays2 := (arrays2 h)(lim h := ?T,
             Suc (lim h) := update_matrix ?v (arrays2 h e) betafirm N),
        lim := Suc (Suc (lim h))\<rparr>)"
    by (simp add: alloc2_def)
  show ?thesis
    unfolding vectorized_update_def
    by (simp only: R T A S B sum.case prod.case Let_def)
qed

lemma vectorized_update_frame:
  "arrays1 (snd (vectorized_update V e betafirm sizek h)) = arrays1 h \<and>
   (\<forall>a<lim h. arrays2 (snd (vectorized_update V e betafirm sizek h)) a = arrays2 h a)"
  by (auto simp: vectorized_update_def alloc2_def Let_def split: sum.splits prod.splits)

lemma np_zeros2_run:
  "np_zeros2 (int N, int M) h =
     (Inr (lim h),
      h\<lparr>arrays2 := (arrays2 h)
            (lim h := \<lparr>nrows = N, ncols = M, rows = replicate N (replicate M 0)\<rparr>),
        lim := Suc (lim h)\<rparr>)"
  by (simp add: np_zeros2_def alloc2_def)

lemma np_zeros1_run:
  "np_zeros1 (int N) h =
     (Inr (lim h), h\<lparr>arrays1 := (arrays1 h)(lim h := replicate N 0), lim := Suc (lim h)\<rparr>)"
  by (simp add: np_zeros1_def alloc1_def)

lemma has_shape_zeros: "has_shape N M \<lparr>nrows = N, ncols = M, rows = replicate N (replicate M 0)\<rparr>"
  by (simp add: has_shape_def list_all_iff)

lemma loop_store_simps [simp]:
  "arrays1 (loop_store V e betafirm N Vmat h) = arrays1 h"
  "lim (loop_store V e betafirm N Vmat h) = lim h"
  "a \<noteq> Vmat \<Longrightarrow> arrays2 (loop_store V e betafirm N Vmat h) a = arrays2 h a"
  by (simp_all add: loop_store_def arrays2_set_rows)

text \<open>One update into a buffer that \<open>np.zeros\<close> has just created.\<close>

lemma VFI_loop_fresh:
  assumes "length (arrays1 h V) = N" and "has_shape N N (arrays2 h e)" and "e < lim h"
  shows "\<exists>h1 h2. np_zeros2 (int N, int N) h = (Inr (lim h), h1) \<and>
           VFI_loop V e betafirm (int N) (lim h) h1 = (Inr (lim h), h2) \<and>
           naive_loop V e betafirm (int N) (lim h) h1 = (Inr (), h2) \<and>
           arrays2 h2 (lim h) = update_matrix (arrays1 h V) (arrays2 h e) betafirm N \<and>
           arrays1 h2 = arrays1 h \<and> lim h2 = Suc (lim h) \<and>
           (\<forall>a<lim h. arrays2 h2 a = arrays2 h a)"
proof -
  let ?h1 = "h\<lparr>arrays2 := (arrays2 h)
            (lim h := \<lparr>nrows = N, ncols = N, rows = replicate N (replicate N 0)\<rparr>),
        lim := Suc (lim h)\<rparr>"
  let ?h2 = "loop_store V e betafirm N (lim h) ?h1"
  from assms have wf: "well_formed N V e (lim h) ?h1"
    by (simp add: well_formed_def has_shape_zeros)
  note run = VFI_loop_run [OF well_formed_in_bounds [OF wf] well_formed_Vmat [OF wf]]
    naive_loop_run [OF well_formed_in_bounds [OF wf] well_formed_Vmat [OF wf]]
  from assms(3) have "arrays2 ?h2 (lim h) = update_matrix (arrays1 h V) (arrays2 h e) betafirm N"
    by (simp add: loop_store_well_formed [OF wf])
  moreover have "\<forall>a<lim h. arrays2 ?h2 a = arrays2 h a"
    by simp
  ultimately show ?thesis
    using run np_zeros2_run [of N N h] by (intro exI [of _ ?h1] exI [of _ ?h2]) simp
qed

lemma vectorized_update_fresh:
  assumes "length (arrays1 h V) = N" and "has_shape N N (arrays2 h e)" and "e < lim h"
  shows "\<exists>h'. vectorized_update V e betafirm (int N) h = (Inr (lim h, Suc (lim h)), h') \<and>
           arrays2 h' (Suc (lim h)) = update_matrix (arrays1 h V) (arrays2 h e) betafirm N \<and>
           arrays1 h' = arrays1 h \<and> lim h' = Suc (Suc (lim h)) \<and>
           (\<forall>a<lim h. arrays2 h' a = arrays2 h a)"
proof -
  from assms(2) have "nrows (arrays2 h e) = N" "ncols (arrays2 h e) = N"
    by (simp_all add: has_shape_def)
  from vectorized_update_run [OF assms(1) this assms(3), of betafirm] show ?thesis
    by simp
qed

subsection \<open>Rounding to binary64\<close>

lemma scale_up_steps:
  assumes "0 \<le> a" and "a * 2 ^ k < 2 ^ 53" and "- 1074 \<le> q - int k"
  shows "scale_up a q = scale_up (a * 2 ^ k) (q - int k)"
  using assms
proof (induction k arbitrary: a q)
  case 0
  then show ?case by simp
next
  case (Suc k)
  from Suc.prems(1) have "a * 2 \<le> a * 2 ^ Suc k"
    by (simp add: mult_left_mono)
  with Suc.prems(2) have small: "a < 2 ^ 52" by simp
  from Suc.prems(3) have q: "- 1074 < q" by simp
  from small q have "scale_up a q = scale_up (a * 2) (q - 1)"
    by (subst scale_up.simps) simp
  also from Suc.prems have "\<dots> = scale_up (a * 2 * 2 ^ k) (q - 1 - int k)"
    by (intro Suc.IH) simp_all
  finally show ?case by (simp add: mult.assoc)
qed

lemma round64_normal:
  assumes "0 < x" and "2 ^ 52 \<le> x * 2 ^ k" and "x * 2 ^ k < 2 ^ 53" and "k \<le> 1074"
  shows "round64 x = of_int (round_half_even (x * 2 ^ k)) / 2 ^ k"
proof -
  have "x \<le> x * 2 ^ k"
    using assms(1) by (simp add: mult_le_cancel_left1)
  with assms(3) have "x < 2 ^ 53" by simp
  then have down: "scale_down \<bar>x\<bar> 0 = (x, 0)"
    using assms(1) by (subst scale_down.simps) simp
  have "scale_up x 0 = scale_up (x * 2 ^ k) (0 - int k)"
    using assms by (intro scale_up_steps) simp_all
  also have "\<dots> = (x * 2 ^ k, - int k)"
    using assms(2) by (subst scale_up.simps) simp
  finally have up: "scale_up x 0 = (x * 2 ^ k, - int k)" .
  have pw: "(2::rat) powi (- int k) = inverse (2 ^ k)"
    by (simp add: power_int_minus)
  from assms(1) have "x \<noteq> 0" and sg: "sgn x = 1"
    by simp_all
  then have "round64 x = sgn x * of_int (round_half_even (x * 2 ^ k)) * 2 powi (- int k)"
    by (simp only: round64_def down up if_False Let_def prod.case)
  then show ?thesis
    by (simp only: pw sg mult_1 divide_inverse)
qed

lemma floor_rat_numeral [simp]: "\<lfloor>(numeral a :: rat) / numeral b\<rfloor> = numeral a div numeral b"
  by (metis floor_divide_of_int_eq of_int_numeral)

lemma round64_096: "round64 (24 / 25) = 1080863910568919 / 1125899906842624"
  by (subst round64_normal [where k = 53]) (simp_all add: round_half_even_def Let_def)

lemma round64_192: "round64 (48 / 25) = 1080863910568919 / 562949953421312"
  by (subst round64_normal [where k = 52]) (simp_all add: round_half_even_def Let_def)

lemma round64_288: "round64 (72 / 25) = 3242591731706757 / 1125899906842624"
  by (subst round64_normal [where k = 51]) (simp_all add: round_half_even_def Let_def)

lemma round64_1: "round64 1 = 1"
  by (subst round64_normal [where k = 52]) (simp_all add: round_half_even_def Let_def)

lemma round64_2: "round64 2 = 2"
  by (subst round64_normal [where k = 51]) (simp_all add: round_half_even_def Let_def)

lemma round64_3: "round64 3 = 3"
  by (subst round64_normal [where k = 51]) (simp_all add: round_half_even_def Let_def)

lemma round64_096_exact: "round64 (1080863910568919 / 1125899906842624) = 1080863910568919 / 1125899906842624"
  by (subst round64_normal [where k = 53]) (simp_all add: round_half_even_def Let_def)

lemma round64_192_exact: "round64 (1080863910568919 / 562949953421312) = 1080863910568919 / 562949953421312"
  by (subst round64_normal [where k = 52]) (simp_all add: round_half_even_def Let_def)

lemma round64_288_exact: "round64 (3242591731706757 / 1125899906842624) = 3242591731706757 / 1125899906842624"
  by (subst round64_normal [where k = 51]) (simp_all add: round_half_even_def Let_def)

section \<open>Arrays in memory\<close>

subsection \<open>The compiled loops on arrays that are large enough\<close>

lemma for_loop_fold:
  assumes "\<And>i s. i \<in> set xs \<Longrightarrow> body i s = (Inr (), f i s)"
  shows "for_loop xs body s = (Inr (), fold f xs s)"
  using assms by (induction xs arbitrary: s) simp_all

lemma assign_Vmat_mem_fits:
  assumes "fits N V e Vmat" and "i < N" and "j < N"
  shows "assign_Vmat_mem V e betafirm Vmat i j m = (Inr (), jit_assign V e betafirm Vmat i j m)"
  using assms
  by (simp add: fits_def assign_Vmat_mem_def load2_def load1_def store2_def jit_assign_def)

lemma naive_loop_mem_fits:
  assumes "fits N V e Vmat"
  shows "naive_loop_mem V e betafirm (int N) Vmat m =
           (Inr (), snd (VFI_loop_jit V e betafirm (int N) Vmat m))"
proof -
  have inner: "for_loop (py_range (int N)) (assign_Vmat_mem V e betafirm Vmat i) s =
      (Inr (), fold (jit_assign V e betafirm Vmat i) (py_range (int N)) s)"
    if "i \<in> set (py_range (int N))" for i s
    using that
    by (intro for_loop_fold) (simp add: assign_Vmat_mem_fits [OF assms] py_range_def)
  show ?thesis
    unfolding naive_loop_mem_def VFI_loop_jit_def snd_conv
    by (rule for_loop_fold) (rule inner)
qed

lemma cell2_in_cells2: "i < dim_r a \<Longrightarrow> j < dim_c a \<Longrightarrow> cell2 a i j \<in> set (cells2 a)"
  by (force simp: cells2_def)

lemma cell1_in_cells1: "j < len1 v \<Longrightarrow> cell1 v j \<in> set (cells1 v)"
  by (simp add: cells1_def)

subsection \<open>The cells an update writes\<close>

lemma outside_assign_Vmat_mem:
  "outside Vmat m s \<Longrightarrow> outside Vmat m (snd (assign_Vmat_mem V e betafirm Vmat i j s))"
  by (auto simp: outside_def assign_Vmat_mem_def store2_def cell2_in_cells2 split: sum.splits)

lemma outside_naive_loop_mem: "outside Vmat m (snd (naive_loop_mem V e betafirm sizek Vmat m))"
  unfolding naive_loop_mem_def
proof (rule for_loop_preserves [where P = "outside Vmat m"])
  show "outside Vmat m m" by (simp add: outside_def)
next
  fix i s
  assume "outside Vmat m s"
  then show "outside Vmat m (snd (for_loop (py_range sizek) (assign_Vmat_mem V e betafirm Vmat i) s))"
    by (rule for_loop_preserves [where P = "outside Vmat m", rotated]) (rule outside_assign_Vmat_mem)
qed

lemma outside_jit:
  assumes "nat sizek \<le> dim_r Vmat" and "nat sizek \<le> dim_c Vmat"
  shows "outside Vmat m (snd (VFI_loop_jit V e betafirm sizek Vmat m))"
proof -
  have step: "outside Vmat m (jit_assign V e betafirm Vmat i j s)"
    if "outside Vmat m s" "i < nat sizek" "j < nat sizek" for i j s
    using that assms by (auto simp: outside_def jit_assign_def cell2_in_cells2)
  have inner: "outside Vmat m (fold (jit_assign V e betafirm Vmat i) js s)"
    if "outside Vmat m s" "i < nat sizek" "set js \<subseteq> {..<nat sizek}" for i js s
    using that by (induction js arbitrary: s) (simp_all add: step)
  have row: "outside Vmat m (fold (jit_assign V e betafirm Vmat i) (py_range sizek) s)"
    if "outside Vmat m s" "i < nat sizek" for i s
    using that by (intro inner) (auto simp: py_range_def)
  have outer: "outside Vmat m
      (fold (\<lambda>i. fold (jit_assign V e betafirm Vmat i) (py_range sizek)) is s)"
    if "outside Vmat m s" "set is \<subseteq> {..<nat sizek}" for "is" s
    using that by (induction "is" arbitrary: s) (simp_all add: row)
  show ?thesis
    unfolding VFI_loop_jit_def snd_conv
    by (rule outer) (auto simp: outside_def py_range_def)
qed

lemma outside_load:
  assumes "outside Vmat m s"
  shows "set (cells2 Vmat) \<inter> set (cells2 e) = {} \<Longrightarrow> load2 e i j s = load2 e i j m"
    and "set (cells2 Vmat) \<inter> set (cells1 V) = {} \<Longrightarrow> load1 V j s = load1 V j m"
  using assms cell2_in_cells2 [of i e j] cell1_in_cells1 [of j V]
  by (auto simp: outside_def load2_def load1_def)

text \<open>
  Why the cells of \<open>Vmat\<close> have to be apart from those of the inputs: when \<open>V\<close> is a view of
  the first row of \<open>Vmat\<close>, as after \<open>V = Vmat[0]\<close>, the update changes \<open>V\<close>.
\<close>

lemma shared_row_changes_V:
  "load1 (contiguous1 2 1) 0 (memory_of 0 [1, 10, 0 :: int]) = Inr 0 \<and>
   load1 (contiguous1 2 1) 0
     (snd (naive_loop_mem (contiguous1 2 1) (contiguous2 1 1 1) 3 1 (contiguous2 2 1 1)
        (memory_of 0 [1, 10, 0 :: int]))) = Inr 10"
  by (simp add: naive_loop_mem_def py_range_def upt_rec assign_Vmat_mem_def
      load2_def load1_def store2_def cell1_def cell2_def contiguous1_def
      contiguous2_def memory_of_def)

subsection \<open>The store and the memory agree\<close>

lemma holds1_nth:
  assumes "holds1 m v xs" and "j < length xs"
  shows "m (cell1 v j) = xs ! j"
proof -
  from assms(1) have eq: "map (\<lambda>j. m (cell1 v j)) [0..<length xs] = xs"
    unfolding holds1_def by (rule conjunct2)
  have "map (\<lambda>j. m (cell1 v j)) [0..<length xs] ! j = m (cell1 v j)"
    using assms(2) by simp
  then show ?thesis
    unfolding eq by (rule sym)
qed

lemma holds2_rows:
  assumes "holds2 m a A"
  shows "map (\<lambda>i. map (\<lambda>j. m (cell2 a i j)) [0..<ncols A]) [0..<nrows A] = rows A"
  using assms unfolding holds2_def by (elim conjE)

lemma holds2_nth:
  assumes "holds2 m a A" and "i < nrows A" and "j < ncols A"
  shows "m (cell2 a i j) = rows A ! i ! j"
proof -
  have "map (\<lambda>i. map (\<lambda>j. m (cell2 a i j)) [0..<ncols A]) [0..<nrows A] ! i ! j = m (cell2 a i j)"
    using assms(2,3) by simp
  then show ?thesis
    unfolding holds2_rows [OF assms(1)] by (rule sym)
qed

lemma holds2_has_shape:
  assumes "holds2 m a A"
  shows "has_shape (nrows A) (ncols A) A"
proof -
  let ?rs = "map (\<lambda>i. map (\<lambda>j. m (cell2 a i j)) [0..<ncols A]) [0..<nrows A]"
  have "length ?rs = nrows A \<and> list_all (\<lambda>row. length row = ncols A) ?rs"
    by (simp add: list_all_length)
  then show ?thesis
    unfolding holds2_rows [OF assms] by (simp add: has_shape_def)
qed

lemma holds2_I:
  assumes "dim_r a = nrows A" and "dim_c a = ncols A" and "has_shape (nrows A) (ncols A) A"
    and "\<And>i j. i < nrows A \<Longrightarrow> j < ncols A \<Longrightarrow> m (cell2 a i j) = rows A ! i ! j"
  shows "holds2 m a A"
proof -
  from assms(3) have len: "length (rows A) = nrows A"
    and rowlen: "\<And>i. i < nrows A \<Longrightarrow> length (rows A ! i) = ncols A"
    by (simp_all add: has_shape_def list_all_length)
  have "map (\<lambda>i. map (\<lambda>j. m (cell2 a i j)) [0..<ncols A]) [0..<nrows A] = rows A"
    by (rule nth_equalityI) (simp_all add: len rowlen assms(4) list_eq_iff_nth_eq)
  with assms(1,2) show ?thesis by (simp add: holds2_def)
qed

lemma nested_fold_pairs:
  "fold (\<lambda>i. fold (g i) js) is s = fold (\<lambda>(i, j). g i j) (List.product is js) s"
proof (induction "is" arbitrary: s)
  case Nil
  then show ?case by simp
next
  case (Cons i "is")
  have "fold (\<lambda>(i, j). g i j) (map (Pair i) js) t = fold (g i) js t" for t
    by (simp add: fold_map comp_def)
  with Cons show ?case by simp
qed

lemma cells2_product:
  "cells2 a = map (\<lambda>(i, j). cell2 a i j) (List.product [0..<dim_r a] [0..<dim_c a])"
proof -
  have "concat (map (\<lambda>i. map (cell2 a i) js) is) = map (\<lambda>(i, j). cell2 a i j) (List.product is js)"
    for "is" js
    by (induction "is") simp_all
  then show ?thesis by (simp add: cells2_def)
qed

lemma cell2_inj:
  assumes "distinct (cells2 a)"
    and "i < dim_r a" "j < dim_c a" "i' < dim_r a" "j' < dim_c a"
    and "cell2 a i j = cell2 a i' j'"
  shows "i = i' \<and> j = j'"
proof -
  from assms(1) have "inj_on (\<lambda>(i, j). cell2 a i j) (set (List.product [0..<dim_r a] [0..<dim_c a]))"
    by (simp add: cells2_product distinct_map)
  from inj_onD [OF this, of "(i, j)" "(i', j')"] assms(2-) show ?thesis by simp
qed

text \<open>The memory after the assignments for a list of index pairs.\<close>

lemma jit_pairs:
  assumes fit: "fits N V e Vmat"
    and inj: "distinct (cells2 Vmat)"
    and de: "set (cells2 Vmat) \<inter> set (cells2 e) = {}"
    and dV: "set (cells2 Vmat) \<inter> set (cells1 V) = {}"
    and ps: "set ps \<subseteq> {..<N} \<times> {..<N}" and D: "D \<subseteq> {..<N} \<times> {..<N}"
    and written: "\<forall>(i, j) \<in> D. s (cell2 Vmat i j) = m (cell2 e i j) + betafirm * m (cell1 V j)"
    and rest: "\<forall>c. c \<notin> (\<lambda>(i, j). cell2 Vmat i j) ` D \<longrightarrow> s c = m c"
  shows "(\<forall>(i, j) \<in> D \<union> set ps.
            fold (\<lambda>(i, j). jit_assign V e betafirm Vmat i j) ps s (cell2 Vmat i j)
              = m (cell2 e i j) + betafirm * m (cell1 V j)) \<and>
         (\<forall>c. c \<notin> (\<lambda>(i, j). cell2 Vmat i j) ` (D \<union> set ps) \<longrightarrow>
            fold (\<lambda>(i, j). jit_assign V e betafirm Vmat i j) ps s c = m c)"
  using ps D written rest
proof (induction ps arbitrary: s D)
  case Nil
  then show ?case by simp
next
  case (Cons p ps)
  obtain i j where p: "p = (i, j)" by (cases p)
  with Cons.prems(1) have ij: "i < N" "j < N" by simp_all
  let ?s = "jit_assign V e betafirm Vmat i j s"
  have img: "(\<lambda>(i, j). cell2 Vmat i j) ` D \<subseteq> set (cells2 Vmat)"
    using Cons.prems(2) fit by (auto simp: fits_def intro!: cell2_in_cells2)
  from ij fit have "cell2 e i j \<in> set (cells2 e)" "cell1 V j \<in> set (cells1 V)"
    by (simp_all add: fits_def cell2_in_cells2 cell1_in_cells1)
  with de dV img have "cell2 e i j \<notin> (\<lambda>(i, j). cell2 Vmat i j) ` D"
    "cell1 V j \<notin> (\<lambda>(i, j). cell2 Vmat i j) ` D"
    by blast+
  with Cons.prems(4) have reads: "s (cell2 e i j) = m (cell2 e i j)" "s (cell1 V j) = m (cell1 V j)"
    by simp_all
  have new: "?s (cell2 Vmat i j) = m (cell2 e i j) + betafirm * m (cell1 V j)"
    by (simp add: jit_assign_def reads)
  have D': "insert (i, j) D \<subseteq> {..<N} \<times> {..<N}"
    using Cons.prems(2) ij by simp
  have written': "\<forall>(i', j') \<in> insert (i, j) D.
      ?s (cell2 Vmat i' j') = m (cell2 e i' j') + betafirm * m (cell1 V j')"
  proof (clarify)
    fix i' j'
    assume mem: "(i', j') \<in> insert (i, j) D"
    show "?s (cell2 Vmat i' j') = m (cell2 e i' j') + betafirm * m (cell1 V j')"
    proof (cases "(i', j') = (i, j)")
      case True
      with new show ?thesis by simp
    next
      case False
      with mem have inD: "(i', j') \<in> D" by auto
      with Cons.prems(2) have "i' < N" "j' < N" by auto
      with ij fit False have "cell2 Vmat i' j' \<noteq> cell2 Vmat i j"
        using cell2_inj [OF inj, of i' j' i j] by (auto simp: fits_def)
      then have "?s (cell2 Vmat i' j') = s (cell2 Vmat i' j')"
        by (simp add: jit_assign_def)
      with Cons.prems(3) inD show ?thesis by auto
    qed
  qed
  have rest': "\<forall>c. c \<notin> (\<lambda>(i, j). cell2 Vmat i j) ` insert (i, j) D \<longrightarrow> ?s c = m c"
    using Cons.prems(4) by (auto simp: jit_assign_def)
  from Cons.prems(1) have ps': "set ps \<subseteq> {..<N} \<times> {..<N}" by simp
  from Cons.IH [OF ps' D' written' rest'] show ?case
    by (simp add: p)
qed

lemma VFI_loop_jit_pairs:
  assumes "fits N V e Vmat" and "distinct (cells2 Vmat)"
    and "set (cells2 Vmat) \<inter> set (cells2 e) = {}" and "set (cells2 Vmat) \<inter> set (cells1 V) = {}"
  shows "(\<forall>(i, j) \<in> {..<N} \<times> {..<N}.
            snd (VFI_loop_jit V e betafirm (int N) Vmat m) (cell2 Vmat i j)
              = m (cell2 e i j) + betafirm * m (cell1 V j)) \<and>
         (\<forall>c. c \<notin> (\<lambda>(i, j). cell2 Vmat i j) ` ({..<N} \<times> {..<N}) \<longrightarrow>
            snd (VFI_loop_jit V e betafirm (int N) Vmat m) c = m c)"
proof -
  let ?ps = "List.product [0..<N] [0..<N]"
  have run: "snd (VFI_loop_jit V e betafirm (int N) Vmat m)
      = fold (\<lambda>(i, j). jit_assign V e betafirm Vmat i j) ?ps m"
    by (simp add: VFI_loop_jit_def py_range_def nested_fold_pairs)
  have ps: "set ?ps \<subseteq> {..<N} \<times> {..<N}" by auto
  have set: "{} \<union> set ?ps = {..<N} \<times> {..<N}" by auto
  have "(\<forall>(i, j) \<in> {} \<union> set ?ps.
            fold (\<lambda>(i, j). jit_assign V e betafirm Vmat i j) ?ps m (cell2 Vmat i j)
              = m (cell2 e i j) + betafirm * m (cell1 V j)) \<and>
         (\<forall>c. c \<notin> (\<lambda>(i, j). cell2 Vmat i j) ` ({} \<union> set ?ps) \<longrightarrow>
            fold (\<lambda>(i, j). jit_assign V e betafirm Vmat i j) ?ps m c = m c)"
    by (rule jit_pairs [OF assms ps]) simp_all
  then show ?thesis
    unfolding run set .
qed

lemma VFI_loop_jit_written:
  assumes "fits N V e Vmat" and "distinct (cells2 Vmat)"
    and "set (cells2 Vmat) \<inter> set (cells2 e) = {}" and "set (cells2 Vmat) \<inter> set (cells1 V) = {}"
    and "i < N" and "j < N"
  shows "snd (VFI_loop_jit V e betafirm (int N) Vmat m) (cell2 Vmat i j)
           = m (cell2 e i j) + betafirm * m (cell1 V j)"
  using VFI_loop_jit_pairs [OF assms(1-4), of betafirm m] assms(5,6) by auto

lemma VFI_loop_jit_kept:
  assumes "fits N V e Vmat" and "distinct (cells2 Vmat)"
    and "set (cells2 Vmat) \<inter> set (cells2 e) = {}" and "set (cells2 Vmat) \<inter> set (cells1 V) = {}"
    and "\<not> (\<exists>i<N. \<exists>j<N. c = cell2 Vmat i j)"
  shows "snd (VFI_loop_jit V e betafirm (int N) Vmat m) c = m c"
proof -
  from assms(5) have "c \<notin> (\<lambda>(i, j). cell2 Vmat i j) ` ({..<N} \<times> {..<N})"
    by auto
  with VFI_loop_jit_pairs [OF assms(1-4), of betafirm m] show ?thesis
    by blast
qed

text \<open>
  When the memory holds the arrays of a store, \<open>Vmat\<close> apart from \<open>e\<close> and \<open>V\<close>, and the
  arrays are large enough, the compiled function leaves in memory the array that \<open>VFI_loop\<close>
  read as Python text leaves in the store, and \<open>e\<close> and \<open>V\<close> as they were.
\<close>

lemma VFI_loop_jit_refines:
  assumes repV: "holds1 m Vv (arrays1 h V)" and repe: "holds2 m ev (arrays2 h e)"
    and repVmat: "holds2 m Vmv (arrays2 h Vmat)"
    and inj: "distinct (cells2 Vmv)"
    and de: "set (cells2 Vmv) \<inter> set (cells2 ev) = {}"
    and dV: "set (cells2 Vmv) \<inter> set (cells1 Vv) = {}"
    and b: "in_bounds N V e Vmat h"
  shows "\<exists>h'. VFI_loop V e betafirm (int N) Vmat h = (Inr Vmat, h') \<and>
              fst (VFI_loop_jit Vv ev betafirm (int N) Vmv m) = Vmv \<and>
              holds2 (snd (VFI_loop_jit Vv ev betafirm (int N) Vmv m)) Vmv (arrays2 h' Vmat) \<and>
              holds2 (snd (VFI_loop_jit Vv ev betafirm (int N) Vmv m)) ev (arrays2 h e) \<and>
              holds1 (snd (VFI_loop_jit Vv ev betafirm (int N) Vmv m)) Vv (arrays1 h V)"
proof -
  let ?m' = "snd (VFI_loop_jit Vv ev betafirm (int N) Vmv m)"
  let ?A = "arrays2 h Vmat"
  let ?f = "\<lambda>i j. rows (arrays2 h e) ! i ! j + betafirm * arrays1 h V ! j"
  let ?h' = "loop_store V e betafirm N Vmat h"
  from repVmat have shape: "has_shape (nrows ?A) (ncols ?A) ?A"
    by (rule holds2_has_shape)
  have run: "VFI_loop V e betafirm (int N) Vmat h = (Inr Vmat, ?h')"
    by (rule VFI_loop_run [OF b shape])
  from repV repe repVmat have dims: "len1 Vv = length (arrays1 h V)"
      "dim_r ev = nrows (arrays2 h e)" "dim_c ev = ncols (arrays2 h e)"
      "dim_r Vmv = nrows ?A" "dim_c Vmv = ncols ?A"
    by (simp_all add: holds1_def holds2_def)
  with b have fit: "fits N Vv ev Vmv"
    by (simp add: fits_def in_bounds_def)
  note written = VFI_loop_jit_written [OF fit inj de dV, of _ _ betafirm m]
  note kept = VFI_loop_jit_kept [OF fit inj de dV, of _ betafirm m]
  from shape have len: "length (rows ?A) = nrows ?A"
    and rowlen: "\<And>i. i < nrows ?A \<Longrightarrow> length (rows ?A ! i) = ncols ?A"
    by (simp_all add: has_shape_def list_all_length)
  have A': "arrays2 ?h' Vmat = ?A\<lparr>rows := upd_rows N N ?f (rows ?A)\<rparr>"
    by (simp add: loop_store_def arrays2_set_rows)
  have shape': "has_shape (nrows (arrays2 ?h' Vmat)) (ncols (arrays2 ?h' Vmat)) (arrays2 ?h' Vmat)"
    using shape by (simp add: A' has_shape_def list_all_length nth_upd_rows)
  have entry: "?m' (cell2 Vmv i j) = rows (arrays2 ?h' Vmat) ! i ! j"
    if ij: "i < nrows (arrays2 ?h' Vmat)" "j < ncols (arrays2 ?h' Vmat)" for i j
  proof (cases "i < N \<and> j < N")
    case True
    with b have "i < nrows (arrays2 h e)" "j < ncols (arrays2 h e)" "j < length (arrays1 h V)"
      by (simp_all add: in_bounds_def)
    then have "m (cell2 ev i j) = rows (arrays2 h e) ! i ! j" "m (cell1 Vv j) = arrays1 h V ! j"
      using holds2_nth [OF repe] holds1_nth [OF repV] by simp_all
    with True ij show ?thesis
      by (simp add: written A' nth_upd_rows nth_upd_row len rowlen)
  next
    case False
    from ij have range: "i < dim_r Vmv" "j < dim_c Vmv"
      by (simp_all add: A' dims)
    have "\<not> (\<exists>i'<N. \<exists>j'<N. cell2 Vmv i j = cell2 Vmv i' j')"
    proof
      assume "\<exists>i'<N. \<exists>j'<N. cell2 Vmv i j = cell2 Vmv i' j'"
      then obtain i' j' where "i' < N" "j' < N" "cell2 Vmv i j = cell2 Vmv i' j'"
        by blast
      with fit range have "i = i' \<and> j = j'"
        by (intro cell2_inj [OF inj]) (simp_all add: fits_def)
      with \<open>i' < N\<close> \<open>j' < N\<close> False show False by simp
    qed
    then have "?m' (cell2 Vmv i j) = m (cell2 Vmv i j)"
      by (rule kept)
    also have "\<dots> = rows ?A ! i ! j"
      using ij by (intro holds2_nth [OF repVmat]) (simp_all add: A')
    also have "\<dots> = rows (arrays2 ?h' Vmat) ! i ! j"
      using False ij by (auto simp: A' nth_upd_rows nth_upd_row len rowlen)
    finally show ?thesis .
  qed
  have Vmat': "holds2 ?m' Vmv (arrays2 ?h' Vmat)"
    by (rule holds2_I [OF _ _ shape' entry]) (simp_all add: A' dims)
  have out: "outside Vmv m ?m'"
    using fit by (intro outside_jit) (simp_all add: fits_def)
  have e': "holds2 ?m' ev (arrays2 h e)"
  proof (rule holds2_I [OF dims(2,3) holds2_has_shape [OF repe]])
    fix i j
    assume ij: "i < nrows (arrays2 h e)" "j < ncols (arrays2 h e)"
    then have "cell2 ev i j \<in> set (cells2 ev)"
      by (simp add: cell2_in_cells2 dims)
    with de out have "?m' (cell2 ev i j) = m (cell2 ev i j)"
      by (auto simp: outside_def)
    with ij show "?m' (cell2 ev i j) = rows (arrays2 h e) ! i ! j"
      by (simp add: holds2_nth [OF repe])
  qed
  have V': "holds1 ?m' Vv (arrays1 h V)"
  proof -
    have "?m' (cell1 Vv j) = arrays1 h V ! j" if "j < length (arrays1 h V)" for j
    proof -
      from that have "cell1 Vv j \<in> set (cells1 Vv)"
        by (simp add: cell1_in_cells1 dims)
      with dV out have "?m' (cell1 Vv j) = m (cell1 Vv j)"
        by (auto simp: outside_def)
      with that show ?thesis by (simp add: holds1_nth [OF repV])
    qed
    then have "map (\<lambda>j. ?m' (cell1 Vv j)) [0..<length (arrays1 h V)] = arrays1 h V"
      by (intro nth_equalityI) simp_all
    with dims(1) show ?thesis by (simp add: holds1_def)
  qed
  from run Vmat' e' V' show ?thesis
    by (simp add: VFI_loop_jit_def)
qed

section \<open>Runs on arrays of other shapes\<close>

subsection \<open>Where the loop of cell 1 stops\<close>


lemma block_store_simps [simp]:
  "arrays1 (block_store V e betafirm k n Vmat h) = arrays1 h"
  "nrows (arrays2 (block_store V e betafirm k n Vmat h) a) = nrows (arrays2 h a)"
  "ncols (arrays2 (block_store V e betafirm k n Vmat h) a) = ncols (arrays2 h a)"
  by (simp_all add: block_store_def arrays2_set_rows)

lemma usable_block_store [simp]:
  "usable_rows e Vmat (block_store V' e' betafirm k n Vmat' h) = usable_rows e Vmat h"
  "usable_cols V e Vmat (block_store V' e' betafirm k n Vmat' h) = usable_cols V e Vmat h"
  by (simp_all add: usable_rows_def usable_cols_def)






subsection \<open>What the vectorized update returns\<close>




subsection \<open>The tolerance\<close>



section \<open>The loop update\<close>

text \<open>
  C1. For \<open>N\<close> by \<open>N\<close> arrays \<open>e\<close> and \<open>Vmat\<close>, a vector \<open>V\<close> of length \<open>N\<close> and any
  \<open>betafirm\<close>, the loop of cell 1 and \<open>VFI_loop\<close> complete without an exception, leave
  \<open>Vmat[i, j] = e[i, j] + betafirm * V[j]\<close> for all \<open>i, j < N\<close>, where \<open>e\<close> and \<open>V\<close> are read
  before the call, and \<open>VFI_loop\<close> returns the reference \<open>Vmat\<close> it was given, whose array
  it has written.
\<close>

theorem loop_update_sets_Vmat:
  assumes "well_formed N V e Vmat h"
  shows "\<exists>h'. VFI_loop V e betafirm (int N) Vmat h = (Inr Vmat, h') \<and>
              naive_loop V e betafirm (int N) Vmat h = (Inr (), h') \<and>
              has_shape N N (arrays2 h' Vmat) \<and>
              (\<forall>i<N. \<forall>j<N. \<exists>x y. getitem2 e i j h = Inr x \<and> getitem1 V j h = Inr y \<and>
                    getitem2 Vmat i j h' = Inr (x + betafirm * y))"
proof -
  let ?h' = "loop_store V e betafirm N Vmat h"
  note b = well_formed_in_bounds [OF assms] and w = well_formed_Vmat [OF assms]
  have res: "arrays2 ?h' Vmat = update_matrix (arrays1 h V) (arrays2 h e) betafirm N"
    by (rule loop_store_well_formed [OF assms])
  have "VFI_loop V e betafirm (int N) Vmat h = (Inr Vmat, ?h')"
    by (rule VFI_loop_run [OF b w])
  moreover have "naive_loop V e betafirm (int N) Vmat h = (Inr (), ?h')"
    by (rule naive_loop_run [OF b w])
  moreover have "has_shape N N (arrays2 ?h' Vmat)"
    by (simp add: res has_shape_update_matrix)
  moreover have "\<exists>x y. getitem2 e i j h = Inr x \<and> getitem1 V j h = Inr y \<and>
        getitem2 Vmat i j ?h' = Inr (x + betafirm * y)" if "i < N" "j < N" for i j
  proof -
    from assms that have "getitem2 e i j h = Inr (rows (arrays2 h e) ! i ! j)"
      by (simp add: getitem2_in_range well_formed_def has_shape_def)
    moreover from assms that have "getitem1 V j h = Inr (arrays1 h V ! j)"
      by (simp add: getitem1_in_range well_formed_def)
    moreover have "getitem2 Vmat i j ?h' = Inr (rows (arrays2 h e) ! i ! j + betafirm * arrays1 h V ! j)"
      by (rule getitem2_update_matrix [OF res that])
    ultimately show ?thesis by simp
  qed
  ultimately show ?thesis by blast
qed

theorem loop_update_sets_Vmat_witness:
  "well_formed 2 0 1 2 (store_of [1, 2 :: int] [[10, 20], [30, 40]] [[0, 0], [0, 0]]) \<and>
   (\<exists>h'. VFI_loop 0 1 3 2 2 (store_of [1, 2 :: int] [[10, 20], [30, 40]] [[0, 0], [0, 0]]) = (Inr 2, h') \<and>
         naive_loop 0 1 3 2 2 (store_of [1, 2 :: int] [[10, 20], [30, 40]] [[0, 0], [0, 0]]) = (Inr (), h') \<and>
         getitem2 2 1 0 h' = Inr 33)"
proof -
  let ?h = "store_of [1, 2 :: int] [[10, 20], [30, 40]] [[0, 0], [0, 0]]"
  have wf: "well_formed 2 0 1 2 ?h"
    by (simp add: well_formed_def has_shape_def matrix_def)
  have e: "getitem2 1 1 0 ?h = Inr 30" and V: "getitem1 0 0 ?h = Inr 1"
    by (simp_all add: getitem2_def getitem1_def matrix_def)
  from loop_update_sets_Vmat [OF wf, of 3] obtain h' where
    run: "VFI_loop 0 1 3 2 2 ?h = (Inr 2, h')" "naive_loop 0 1 3 2 2 ?h = (Inr (), h')"
    and el: "\<forall>i<2. \<forall>j<2. \<exists>x y. getitem2 1 i j ?h = Inr x \<and> getitem1 0 j ?h = Inr y \<and>
                    getitem2 2 i j h' = Inr (x + 3 * y)"
    by auto
  from el have "\<exists>x y. getitem2 1 1 0 ?h = Inr x \<and> getitem1 0 0 ?h = Inr y \<and>
                    getitem2 2 1 0 h' = Inr (x + 3 * y)"
    by simp
  with e V have "getitem2 2 1 0 h' = Inr 33" by simp
  with wf run show ?thesis by blast
qed

text \<open>
  C2. On arrays that are large enough for the grid, the well-formed ones among them, the
  compiled \<open>VFI_loop\<close> and the interpreted loop of cell 1 produce the same output: the
  interpreted loop completes, and the compiled function returns \<open>Vmat\<close> with the very memory
  that the interpreted loop leaves, so the two outputs agree cell for cell. The entries are
  of any type with \<open>+\<close> and \<open>*\<close>, and the arrays may share memory. When the memory holds the
  arrays of a store, with \<open>Vmat\<close> apart from \<open>e\<close> and \<open>V\<close>, the compiled function leaves in
  memory the array that the loop of cell 1 leaves in the store.
\<close>

theorem compiled_eq_interpreted:
  assumes "fits N V e Vmat"
  shows "(\<exists>m'. naive_loop_mem V e betafirm (int N) Vmat m = (Inr (), m') \<and>
               VFI_loop_jit V e betafirm (int N) Vmat m = (Vmat, m')) \<and>
         (holds1 m V (arrays1 h V0) \<and> holds2 m e (arrays2 h e0) \<and> holds2 m Vmat (arrays2 h Vmat0) \<and>
          distinct (cells2 Vmat) \<and> set (cells2 Vmat) \<inter> set (cells2 e) = {} \<and>
          set (cells2 Vmat) \<inter> set (cells1 V) = {} \<longrightarrow>
            (\<exists>h'. naive_loop V0 e0 betafirm (int N) Vmat0 h = (Inr (), h') \<and>
                  holds2 (snd (VFI_loop_jit V e betafirm (int N) Vmat m)) Vmat (arrays2 h' Vmat0)))"
proof
  show "\<exists>m'. naive_loop_mem V e betafirm (int N) Vmat m = (Inr (), m') \<and>
             VFI_loop_jit V e betafirm (int N) Vmat m = (Vmat, m')"
    using naive_loop_mem_fits [OF assms, of betafirm m] by (simp add: VFI_loop_jit_def)
next
  show "holds1 m V (arrays1 h V0) \<and> holds2 m e (arrays2 h e0) \<and> holds2 m Vmat (arrays2 h Vmat0) \<and>
        distinct (cells2 Vmat) \<and> set (cells2 Vmat) \<inter> set (cells2 e) = {} \<and>
        set (cells2 Vmat) \<inter> set (cells1 V) = {} \<longrightarrow>
          (\<exists>h'. naive_loop V0 e0 betafirm (int N) Vmat0 h = (Inr (), h') \<and>
                holds2 (snd (VFI_loop_jit V e betafirm (int N) Vmat m)) Vmat (arrays2 h' Vmat0))"
  proof (intro impI, elim conjE)
    assume rep: "holds1 m V (arrays1 h V0)" "holds2 m e (arrays2 h e0)"
        "holds2 m Vmat (arrays2 h Vmat0)"
      and apart: "distinct (cells2 Vmat)" "set (cells2 Vmat) \<inter> set (cells2 e) = {}"
        "set (cells2 Vmat) \<inter> set (cells1 V) = {}"
    from rep assms have b: "in_bounds N V0 e0 Vmat0 h"
      by (simp add: in_bounds_def fits_def holds1_def holds2_def)
    from VFI_loop_jit_refines [OF rep apart b, of betafirm] obtain h' where
      h': "VFI_loop V0 e0 betafirm (int N) Vmat0 h = (Inr Vmat0, h')"
        "holds2 (snd (VFI_loop_jit V e betafirm (int N) Vmat m)) Vmat (arrays2 h' Vmat0)"
      by blast
    have "naive_loop V0 e0 betafirm (int N) Vmat0 h
        = (Inr (), loop_store V0 e0 betafirm N Vmat0 h)"
      by (rule naive_loop_run [OF b holds2_has_shape [OF rep(3)]])
    moreover have "VFI_loop V0 e0 betafirm (int N) Vmat0 h
        = (Inr Vmat0, loop_store V0 e0 betafirm N Vmat0 h)"
      by (rule VFI_loop_run [OF b holds2_has_shape [OF rep(3)]])
    ultimately show "\<exists>h'. naive_loop V0 e0 betafirm (int N) Vmat0 h = (Inr (), h') \<and>
        holds2 (snd (VFI_loop_jit V e betafirm (int N) Vmat m)) Vmat (arrays2 h' Vmat0)"
      using h' by simp
  qed
qed

theorem compiled_eq_interpreted_witness:
  "fits 2 (contiguous1 0 2) (contiguous2 2 2 2) (contiguous2 6 2 2) \<and>
   holds1 (memory_of 0 [1, 2, 10, 20, 30, 40 :: int]) (contiguous1 0 2)
     (arrays1 (store_of [1, 2] [[10, 20], [30, 40]] [[0, 0], [0, 0]]) 0) \<and>
   holds2 (memory_of 0 [1, 2, 10, 20, 30, 40 :: int]) (contiguous2 2 2 2)
     (arrays2 (store_of [1, 2] [[10, 20], [30, 40]] [[0, 0], [0, 0]]) 1) \<and>
   holds2 (memory_of 0 [1, 2, 10, 20, 30, 40 :: int]) (contiguous2 6 2 2)
     (arrays2 (store_of [1, 2] [[10, 20], [30, 40]] [[0, 0], [0, 0]]) 2) \<and>
   (\<exists>m'. naive_loop_mem (contiguous1 0 2) (contiguous2 2 2 2) 3 2 (contiguous2 6 2 2)
            (memory_of 0 [1, 2, 10, 20, 30, 40 :: int]) = (Inr (), m') \<and>
         VFI_loop_jit (contiguous1 0 2) (contiguous2 2 2 2) 3 2 (contiguous2 6 2 2)
            (memory_of 0 [1, 2, 10, 20, 30, 40 :: int]) = (contiguous2 6 2 2, m') \<and>
         m' 8 = 33) \<and>
   (\<exists>h'. naive_loop 0 1 3 2 2 (store_of [1, 2 :: int] [[10, 20], [30, 40]] [[0, 0], [0, 0]])
            = (Inr (), h') \<and>
         holds2 (snd (VFI_loop_jit (contiguous1 0 2) (contiguous2 2 2 2) 3 2 (contiguous2 6 2 2)
            (memory_of 0 [1, 2, 10, 20, 30, 40 :: int]))) (contiguous2 6 2 2) (arrays2 h' 2))"
proof -
  let ?m = "memory_of 0 [1, 2, 10, 20, 30, 40 :: int]"
  let ?h = "store_of [1, 2 :: int] [[10, 20], [30, 40]] [[0, 0], [0, 0]]"
  have f: "fits 2 (contiguous1 0 2) (contiguous2 2 2 2) (contiguous2 6 2 2)"
    by (simp add: fits_def contiguous1_def contiguous2_def)
  have rep: "holds1 ?m (contiguous1 0 2) (arrays1 ?h 0)"
      "holds2 ?m (contiguous2 2 2 2) (arrays2 ?h 1)"
      "holds2 ?m (contiguous2 6 2 2) (arrays2 ?h 2)"
    by (simp_all add: holds1_def holds2_def memory_of_def contiguous1_def contiguous2_def
        cell1_def cell2_def matrix_def upt_rec)
  have apart: "distinct (cells2 (contiguous2 6 2 2))"
      "set (cells2 (contiguous2 6 2 2)) \<inter> set (cells2 (contiguous2 2 2 2)) = {}"
      "set (cells2 (contiguous2 6 2 2)) \<inter> set (cells1 (contiguous1 0 2)) = {}"
    by (simp_all add: cells2_def cells1_def cell2_def cell1_def contiguous2_def contiguous1_def
        upt_rec)
  have i2: "int 2 = 2" by simp
  note both = compiled_eq_interpreted [OF f, of 3 ?m ?h 0 1 2, unfolded i2]
  from both [THEN conjunct1] obtain m' where
    m': "naive_loop_mem (contiguous1 0 2) (contiguous2 2 2 2) 3 2 (contiguous2 6 2 2) ?m = (Inr (), m')"
      "VFI_loop_jit (contiguous1 0 2) (contiguous2 2 2 2) 3 2 (contiguous2 6 2 2) ?m
         = (contiguous2 6 2 2, m')"
    by blast
  from m'(2) have "m' 8 = 33"
    by (auto simp: VFI_loop_jit_def py_range_def upt_rec jit_assign_def cell1_def cell2_def
        contiguous1_def contiguous2_def memory_of_def)
  with m' have mem: "\<exists>m'. naive_loop_mem (contiguous1 0 2) (contiguous2 2 2 2) 3 2 (contiguous2 6 2 2) ?m
        = (Inr (), m') \<and>
      VFI_loop_jit (contiguous1 0 2) (contiguous2 2 2 2) 3 2 (contiguous2 6 2 2) ?m
        = (contiguous2 6 2 2, m') \<and> m' 8 = 33"
    by blast
  from both [THEN conjunct2] rep apart
  have store: "\<exists>h'. naive_loop 0 1 3 2 2 ?h = (Inr (), h') \<and>
      holds2 (snd (VFI_loop_jit (contiguous1 0 2) (contiguous2 2 2 2) 3 2 (contiguous2 6 2 2) ?m))
        (contiguous2 6 2 2) (arrays2 h' 2)"
    by blast
  from f rep mem store show ?thesis
    by (intro conjI)
qed

text \<open>
  C9. The array \<open>VFI_loop\<close> returns does not depend on what the buffer \<open>Vmat\<close> held before:
  two stores that agree on \<open>V\<close> and \<open>e\<close> and hold any two \<open>N\<close> by \<open>N\<close> buffers give equal
  results.
\<close>

theorem VFI_loop_ignores_buffer:
  assumes "well_formed N V e Vmat h" and "well_formed N V e Vmat h'"
    and "arrays1 h' V = arrays1 h V" and "arrays2 h' e = arrays2 h e"
  shows "fst (VFI_loop V e betafirm (int N) Vmat h) = Inr Vmat \<and>
         fst (VFI_loop V e betafirm (int N) Vmat h') = Inr Vmat \<and>
         arrays2 (snd (VFI_loop V e betafirm (int N) Vmat h)) Vmat
           = arrays2 (snd (VFI_loop V e betafirm (int N) Vmat h')) Vmat"
  using VFI_loop_run [OF well_formed_in_bounds [OF assms(1)] well_formed_Vmat [OF assms(1)]]
    VFI_loop_run [OF well_formed_in_bounds [OF assms(2)] well_formed_Vmat [OF assms(2)]]
    assms(3,4)
  by (simp add: loop_store_well_formed [OF assms(1)] loop_store_well_formed [OF assms(2)])

theorem VFI_loop_ignores_buffer_witness:
  "well_formed 2 0 1 2 (store_of [1, 2 :: int] [[10, 20], [30, 40]] [[0, 0], [0, 0]]) \<and>
   well_formed 2 0 1 2 (store_of [1, 2 :: int] [[10, 20], [30, 40]] [[5, 6], [7, 8]]) \<and>
   arrays2 (store_of [1, 2 :: int] [[10, 20], [30, 40]] [[0, 0], [0, 0]]) 2
     \<noteq> arrays2 (store_of [1, 2 :: int] [[10, 20], [30, 40]] [[5, 6], [7, 8]]) 2 \<and>
   arrays2 (snd (VFI_loop 0 1 3 2 2 (store_of [1, 2 :: int] [[10, 20], [30, 40]] [[0, 0], [0, 0]]))) 2
     = arrays2 (snd (VFI_loop 0 1 3 2 2 (store_of [1, 2 :: int] [[10, 20], [30, 40]] [[5, 6], [7, 8]]))) 2"
proof -
  let ?h = "store_of [1, 2 :: int] [[10, 20], [30, 40]] [[0, 0], [0, 0]]"
  let ?h' = "store_of [1, 2 :: int] [[10, 20], [30, 40]] [[5, 6], [7, 8]]"
  have wf: "well_formed 2 0 1 2 ?h" "well_formed 2 0 1 2 ?h'"
    by (simp_all add: well_formed_def has_shape_def matrix_def)
  have same: "arrays1 ?h' 0 = arrays1 ?h 0" "arrays2 ?h' 1 = arrays2 ?h 1"
    by simp_all
  have diff: "arrays2 ?h 2 \<noteq> arrays2 ?h' 2"
    by (simp add: matrix_def)
  from VFI_loop_ignores_buffer [OF wf same, of 3] wf diff show ?thesis by simp
qed

section \<open>Zero iterations\<close>

text \<open>
  C10. With \<open>sizek = 0\<close>, \<open>VFI_loop\<close> runs through an empty \<open>range\<close>, raises nothing and returns
  the reference \<open>Vmat\<close> with the store as it was; in particular for the empty arrays of shape
  \<open>(0,)\<close> and \<open>(0, 0)\<close>.
\<close>

theorem VFI_loop_sizek_0:
  "py_range 0 = [] \<and> VFI_loop V e betafirm 0 Vmat h = (Inr Vmat, h)"
  by (simp add: VFI_loop_def py_range_def)

section \<open>Initialisation\<close>

text \<open>
  C7. For a grid size \<open>sizek \<ge> 0\<close>, so for every positive one, the initialisation creates
  three arrays: \<open>V\<close> of length \<open>sizek\<close>, and \<open>e\<close> and \<open>Vmat\<close> of shape \<open>(sizek, sizek)\<close>, two
  different objects, with every entry zero.
\<close>

theorem initialize_arrays_zeros:
  assumes "0 \<le> sizek"
  shows "\<exists>Vmat e V h'. initialize_arrays sizek h = (Inr (Vmat, e, V), h') \<and>
           Vmat \<noteq> e \<and>
           arrays1 h' V = replicate (nat sizek) 0 \<and>
           arrays2 h' e = \<lparr>nrows = nat sizek, ncols = nat sizek,
                            rows = replicate (nat sizek) (replicate (nat sizek) 0)\<rparr> \<and>
           arrays2 h' Vmat = \<lparr>nrows = nat sizek, ncols = nat sizek,
                               rows = replicate (nat sizek) (replicate (nat sizek) 0)\<rparr> \<and>
           well_formed (nat sizek) V e Vmat h'"
proof -
  from assms obtain N where N: "sizek = int N"
    by (metis nat_0_le)
  show ?thesis
    unfolding N initialize_arrays_def
    by (simp add: np_zeros2_run np_zeros1_run well_formed_def has_shape_zeros)
qed

theorem initialize_arrays_zeros_witness:
  "(0::int) \<le> 2 \<and>
   (\<exists>Vmat e V h'. initialize_arrays 2 (empty_heap :: int heap) = (Inr (Vmat, e, V), h') \<and>
      arrays1 h' V = [0, 0] \<and> rows (arrays2 h' e) = [[0, 0], [0, 0]] \<and>
      rows (arrays2 h' Vmat) = [[0, 0], [0, 0]])"
proof -
  have "replicate (nat 2) (0::int) = [0, 0]"
    by (simp add: numeral_2_eq_2)
  moreover have "replicate (nat 2) [0, 0::int] = [[0, 0], [0, 0]]"
    by (simp add: numeral_2_eq_2)
  ultimately show ?thesis
    using initialize_arrays_zeros [of 2 "empty_heap :: int heap"] by auto
qed

section \<open>The vectorized update\<close>



section \<open>What an update writes\<close>

text \<open>
  C4. When the cells of \<open>Vmat\<close> are apart from the cells of \<open>e\<close> and of \<open>V\<close>, as they are for
  arrays that were created one by one, an update leaves every entry of \<open>e\<close> and \<open>V\<close> as it
  was and writes into \<open>Vmat\<close> only: the interpreted loop on every run, also one that raises;
  the compiled \<open>VFI_loop\<close> when \<open>Vmat\<close> has \<open>sizek\<close> rows and columns at least. The vectorized
  update writes into no array that existed before, it creates \<open>VV\<close> and the new \<open>Vmat\<close>.
\<close>

theorem update_frame:
  assumes "set (cells2 Vmat) \<inter> set (cells2 e) = {}" and "set (cells2 Vmat) \<inter> set (cells1 V) = {}"
    and "e' < lim h"
  shows "(\<forall>i j. load2 e i j (snd (naive_loop_mem V e betafirm sizek Vmat m)) = load2 e i j m) \<and>
         (\<forall>j. load1 V j (snd (naive_loop_mem V e betafirm sizek Vmat m)) = load1 V j m) \<and>
         (\<forall>c. c \<notin> set (cells2 Vmat) \<longrightarrow> snd (naive_loop_mem V e betafirm sizek Vmat m) c = m c) \<and>
         (nat sizek \<le> dim_r Vmat \<and> nat sizek \<le> dim_c Vmat \<longrightarrow>
            (\<forall>i j. load2 e i j (snd (VFI_loop_jit V e betafirm sizek Vmat m)) = load2 e i j m) \<and>
            (\<forall>j. load1 V j (snd (VFI_loop_jit V e betafirm sizek Vmat m)) = load1 V j m) \<and>
            (\<forall>c. c \<notin> set (cells2 Vmat) \<longrightarrow> snd (VFI_loop_jit V e betafirm sizek Vmat m) c = m c)) \<and>
         arrays1 (snd (vectorized_update V' e' b sizek h)) = arrays1 h \<and>
         arrays2 (snd (vectorized_update V' e' b sizek h)) e' = arrays2 h e' \<and>
         (\<forall>a<lim h. arrays2 (snd (vectorized_update V' e' b sizek h)) a = arrays2 h a)"
proof -
  have frame: "(\<forall>i j. load2 e i j s = load2 e i j m) \<and> (\<forall>j. load1 V j s = load1 V j m) \<and>
      (\<forall>c. c \<notin> set (cells2 Vmat) \<longrightarrow> s c = m c)" if "outside Vmat m s" for s
    using that outside_load [OF that] assms(1,2) by (simp add: outside_def)
  have "outside Vmat m (snd (naive_loop_mem V e betafirm sizek Vmat m))"
    by (rule outside_naive_loop_mem)
  note loop = frame [OF this]
  have jit: "(\<forall>i j. load2 e i j (snd (VFI_loop_jit V e betafirm sizek Vmat m)) = load2 e i j m) \<and>
      (\<forall>j. load1 V j (snd (VFI_loop_jit V e betafirm sizek Vmat m)) = load1 V j m) \<and>
      (\<forall>c. c \<notin> set (cells2 Vmat) \<longrightarrow> snd (VFI_loop_jit V e betafirm sizek Vmat m) c = m c)"
    if "nat sizek \<le> dim_r Vmat \<and> nat sizek \<le> dim_c Vmat"
    using that by (intro frame outside_jit) simp_all
  from assms(3) vectorized_update_frame [of V' e' b sizek h]
  have vec: "arrays1 (snd (vectorized_update V' e' b sizek h)) = arrays1 h \<and>
      arrays2 (snd (vectorized_update V' e' b sizek h)) e' = arrays2 h e' \<and>
      (\<forall>a<lim h. arrays2 (snd (vectorized_update V' e' b sizek h)) a = arrays2 h a)"
    by simp
  from loop jit vec show ?thesis
    by blast
qed

theorem update_frame_witness:
  "set (cells2 (contiguous2 6 2 2)) \<inter> set (cells2 (contiguous2 2 2 2)) = {} \<and>
   set (cells2 (contiguous2 6 2 2)) \<inter> set (cells1 (contiguous1 0 2)) = {} \<and>
   1 < lim (store_of [1, 2 :: int] [[10, 20], [30, 40]] [[0, 0], [0, 0]]) \<and>
   load2 (contiguous2 2 2 2) 1 0
     (snd (naive_loop_mem (contiguous1 0 2) (contiguous2 2 2 2) 3 2 (contiguous2 6 2 2)
        (memory_of 0 [1, 2, 10, 20, 30, 40 :: int]))) = Inr 30 \<and>
   load1 (contiguous1 0 2) 1
     (snd (VFI_loop_jit (contiguous1 0 2) (contiguous2 2 2 2) 3 2 (contiguous2 6 2 2)
        (memory_of 0 [1, 2, 10, 20, 30, 40 :: int]))) = Inr 2 \<and>
   rows (arrays2 (snd (vectorized_update 0 1 3 2
        (store_of [1, 2 :: int] [[10, 20], [30, 40]] [[0, 0], [0, 0]]))) 1) = [[10, 20], [30, 40]]"
proof -
  let ?m = "memory_of 0 [1, 2, 10, 20, 30, 40 :: int]"
  let ?h = "store_of [1, 2 :: int] [[10, 20], [30, 40]] [[0, 0], [0, 0]]"
  have d: "set (cells2 (contiguous2 6 2 2)) \<inter> set (cells2 (contiguous2 2 2 2)) = {}"
      "set (cells2 (contiguous2 6 2 2)) \<inter> set (cells1 (contiguous1 0 2)) = {}"
    by (simp_all add: cells2_def cells1_def cell2_def cell1_def contiguous2_def contiguous1_def upt_rec)
  have l: "1 < lim ?h" by simp
  have old: "load2 (contiguous2 2 2 2) 1 0 ?m = Inr 30" "load1 (contiguous1 0 2) 1 ?m = Inr 2"
    by (simp_all add: load2_def load1_def cell2_def cell1_def contiguous2_def contiguous1_def
        memory_of_def)
  have fit: "nat 2 \<le> dim_r (contiguous2 6 2 2)" "nat 2 \<le> dim_c (contiguous2 6 2 2)"
    by (simp_all add: contiguous2_def)
  from update_frame [OF d l, of 3 2 ?m 0 3] d l old fit show ?thesis
    by (simp add: matrix_def)
qed

section \<open>Mismatched shapes\<close>




section \<open>The scenario with zero payoffs\<close>

lemma scenario_rows:
  fixes h :: "'a::{plus,times} heap"
  assumes "arrays1 h V = [v1, v2, v3]"
    and "arrays2 h e = matrix [[z, z, z], [z, z, z], [z, z, z]]"
    and "has_shape 3 3 (arrays2 h Vmat)" and "e < lim h"
    and "z + betafirm * v1 = r1" and "z + betafirm * v2 = r2" and "z + betafirm * v3 = r3"
  shows "\<exists>h1 h2 VV Vmat' h3.
           naive_loop V e betafirm 3 Vmat h = (Inr (), h1) \<and>
           rows (arrays2 h1 Vmat) = [[r1, r2, r3], [r1, r2, r3], [r1, r2, r3]] \<and>
           VFI_loop V e betafirm 3 Vmat h = (Inr Vmat, h2) \<and>
           rows (arrays2 h2 Vmat) = [[r1, r2, r3], [r1, r2, r3], [r1, r2, r3]] \<and>
           vectorized_update V e betafirm 3 h = (Inr (VV, Vmat'), h3) \<and>
           rows (arrays2 h3 Vmat') = [[r1, r2, r3], [r1, r2, r3], [r1, r2, r3]]"
proof -
  from assms(1-3) have wf: "well_formed 3 V e Vmat h"
    by (simp add: well_formed_def has_shape_def matrix_def)
  have dims: "length (arrays1 h V) = 3" "nrows (arrays2 h e) = 3" "ncols (arrays2 h e) = 3"
    using assms(1,2) by (simp_all add: matrix_def)
  have val: "rows (update_matrix (arrays1 h V) (arrays2 h e) betafirm 3)
      = [[r1, r2, r3], [r1, r2, r3], [r1, r2, r3]]"
    using assms(5-7) by (simp add: assms(1,2) update_matrix_def matrix_def upt_rec)
  have i3: "int 3 = 3" by simp
  note b = well_formed_in_bounds [OF wf] and w = well_formed_Vmat [OF wf]
  note loop = naive_loop_run [OF b w, of betafirm, unfolded i3]
    VFI_loop_run [OF b w, of betafirm, unfolded i3]
  have r1: "rows (arrays2 (loop_store V e betafirm 3 Vmat h) Vmat)
      = [[r1, r2, r3], [r1, r2, r3], [r1, r2, r3]]"
    by (simp only: loop_store_well_formed [OF wf] val)
  from vectorized_update_run [OF dims assms(4), of betafirm, unfolded i3]
  obtain h3 where vec: "vectorized_update V e betafirm 3 h = (Inr (lim h, Suc (lim h)), h3)"
    and "arrays2 h3 (Suc (lim h)) = update_matrix (arrays1 h V) (arrays2 h e) betafirm 3"
    by simp
  then have r3: "rows (arrays2 h3 (Suc (lim h))) = [[r1, r2, r3], [r1, r2, r3], [r1, r2, r3]]"
    by (simp only: val)
  from loop vec r1 r3 show ?thesis
    by blast
qed

lemma binary64_products:
  "0 + float_of 0.96 * float_of 1 = float_of 0.96"
  "0 + float_of 0.96 * float_of 2 = float_of 1.92"
  "0 + float_of 0.96 * float_of 3 = float_of 2.88"
  by (simp_all add: float_of_def plus_float64_def times_float64_def zero_float64_def
      round64_096 round64_192 round64_288 round64_1 round64_2 round64_3
      round64_096_exact round64_192_exact round64_288_exact)

text \<open>
  C6. With \<open>N = 3\<close>, \<open>betafirm = 0.96\<close>, \<open>e\<close> the 3 by 3 array of zeros and \<open>V = [1, 2, 3]\<close>,
  each of the three updates yields a \<open>Vmat\<close> whose three rows are \<open>[0.96, 1.92, 2.88]\<close>: over
  the real numbers, and in binary64 arithmetic, where the constants are the floats that the
  decimal literals denote.
\<close>

theorem scenario_zero_payoff:
  fixes h :: "real heap" and g :: "float64 heap"
  assumes "arrays1 h V = [1, 2, 3]"
    and "arrays2 h e = matrix [[0, 0, 0], [0, 0, 0], [0, 0, 0]]"
    and "has_shape 3 3 (arrays2 h Vmat)" and "e < lim h"
    and "arrays1 g V = [float_of 1, float_of 2, float_of 3]"
    and "arrays2 g e = matrix [[0, 0, 0], [0, 0, 0], [0, 0, 0]]"
    and "has_shape 3 3 (arrays2 g Vmat)" and "e < lim g"
  shows "(\<exists>h1 h2 VV Vmat' h3.
           naive_loop V e 0.96 3 Vmat h = (Inr (), h1) \<and>
           rows (arrays2 h1 Vmat) = [[0.96, 1.92, 2.88], [0.96, 1.92, 2.88], [0.96, 1.92, 2.88]] \<and>
           VFI_loop V e 0.96 3 Vmat h = (Inr Vmat, h2) \<and>
           rows (arrays2 h2 Vmat) = [[0.96, 1.92, 2.88], [0.96, 1.92, 2.88], [0.96, 1.92, 2.88]] \<and>
           vectorized_update V e 0.96 3 h = (Inr (VV, Vmat'), h3) \<and>
           rows (arrays2 h3 Vmat') = [[0.96, 1.92, 2.88], [0.96, 1.92, 2.88], [0.96, 1.92, 2.88]]) \<and>
         (\<exists>g1 g2 VV Vmat' g3.
           naive_loop V e (float_of 0.96) 3 Vmat g = (Inr (), g1) \<and>
           rows (arrays2 g1 Vmat) =
             [[float_of 0.96, float_of 1.92, float_of 2.88],
              [float_of 0.96, float_of 1.92, float_of 2.88],
              [float_of 0.96, float_of 1.92, float_of 2.88]] \<and>
           VFI_loop V e (float_of 0.96) 3 Vmat g = (Inr Vmat, g2) \<and>
           rows (arrays2 g2 Vmat) =
             [[float_of 0.96, float_of 1.92, float_of 2.88],
              [float_of 0.96, float_of 1.92, float_of 2.88],
              [float_of 0.96, float_of 1.92, float_of 2.88]] \<and>
           vectorized_update V e (float_of 0.96) 3 g = (Inr (VV, Vmat'), g3) \<and>
           rows (arrays2 g3 Vmat') =
             [[float_of 0.96, float_of 1.92, float_of 2.88],
              [float_of 0.96, float_of 1.92, float_of 2.88],
              [float_of 0.96, float_of 1.92, float_of 2.88]])"
proof
  have "(0::real) + 0.96 * 1 = 0.96" "(0::real) + 0.96 * 2 = 1.92" "(0::real) + 0.96 * 3 = 2.88"
    by simp_all
  from scenario_rows [OF assms(1-4) this]
  show "\<exists>h1 h2 VV Vmat' h3.
           naive_loop V e 0.96 3 Vmat h = (Inr (), h1) \<and>
           rows (arrays2 h1 Vmat) = [[0.96, 1.92, 2.88], [0.96, 1.92, 2.88], [0.96, 1.92, 2.88]] \<and>
           VFI_loop V e 0.96 3 Vmat h = (Inr Vmat, h2) \<and>
           rows (arrays2 h2 Vmat) = [[0.96, 1.92, 2.88], [0.96, 1.92, 2.88], [0.96, 1.92, 2.88]] \<and>
           vectorized_update V e 0.96 3 h = (Inr (VV, Vmat'), h3) \<and>
           rows (arrays2 h3 Vmat') = [[0.96, 1.92, 2.88], [0.96, 1.92, 2.88], [0.96, 1.92, 2.88]]" .
next
  from scenario_rows [OF assms(5-8) binary64_products]
  show "\<exists>g1 g2 VV Vmat' g3.
           naive_loop V e (float_of 0.96) 3 Vmat g = (Inr (), g1) \<and>
           rows (arrays2 g1 Vmat) =
             [[float_of 0.96, float_of 1.92, float_of 2.88],
              [float_of 0.96, float_of 1.92, float_of 2.88],
              [float_of 0.96, float_of 1.92, float_of 2.88]] \<and>
           VFI_loop V e (float_of 0.96) 3 Vmat g = (Inr Vmat, g2) \<and>
           rows (arrays2 g2 Vmat) =
             [[float_of 0.96, float_of 1.92, float_of 2.88],
              [float_of 0.96, float_of 1.92, float_of 2.88],
              [float_of 0.96, float_of 1.92, float_of 2.88]] \<and>
           vectorized_update V e (float_of 0.96) 3 g = (Inr (VV, Vmat'), g3) \<and>
           rows (arrays2 g3 Vmat') =
             [[float_of 0.96, float_of 1.92, float_of 2.88],
              [float_of 0.96, float_of 1.92, float_of 2.88],
              [float_of 0.96, float_of 1.92, float_of 2.88]]" .
qed

theorem scenario_zero_payoff_witness:
  "arrays1 (store_of [1, 2, 3 :: real] [[0, 0, 0], [0, 0, 0], [0, 0, 0]] [[0, 0, 0], [0, 0, 0], [0, 0, 0]]) 0
     = [1, 2, 3] \<and>
   has_shape 3 3 (arrays2 (store_of [1, 2, 3 :: real] [[0, 0, 0], [0, 0, 0], [0, 0, 0]] [[0, 0, 0], [0, 0, 0], [0, 0, 0]]) 2) \<and>
   has_shape 3 3 (arrays2 (store_of [float_of 1, float_of 2, float_of 3]
       [[0, 0, 0], [0, 0, 0], [0, 0, 0]] [[0, 0, 0], [0, 0, 0], [0, 0, 0]]) 2) \<and>
   (\<exists>h2. VFI_loop 0 1 0.96 3 2
             (store_of [1, 2, 3 :: real] [[0, 0, 0], [0, 0, 0], [0, 0, 0]] [[0, 0, 0], [0, 0, 0], [0, 0, 0]])
           = (Inr 2, h2) \<and>
          rows (arrays2 h2 2) = [[0.96, 1.92, 2.88], [0.96, 1.92, 2.88], [0.96, 1.92, 2.88]]) \<and>
   (\<exists>g2. VFI_loop 0 1 (float_of 0.96) 3 2
             (store_of [float_of 1, float_of 2, float_of 3]
                [[0, 0, 0], [0, 0, 0], [0, 0, 0]] [[0, 0, 0], [0, 0, 0], [0, 0, 0]])
           = (Inr 2, g2) \<and>
          rows (arrays2 g2 2) =
             [[float_of 0.96, float_of 1.92, float_of 2.88],
              [float_of 0.96, float_of 1.92, float_of 2.88],
              [float_of 0.96, float_of 1.92, float_of 2.88]])"
proof -
  let ?h = "store_of [1, 2, 3 :: real] [[0, 0, 0], [0, 0, 0], [0, 0, 0]] [[0, 0, 0], [0, 0, 0], [0, 0, 0]]"
  let ?g = "store_of [float_of 1, float_of 2, float_of 3]
      [[0, 0, 0], [0, 0, 0], [0, 0, 0]] [[0, 0, 0], [0, 0, 0], [0, 0, 0]]"
  have V: "arrays1 ?h 0 = [1, 2, 3]" and e: "arrays2 ?h 1 = matrix [[0, 0, 0], [0, 0, 0], [0, 0, 0]]"
    and l: "1 < lim ?h"
    by simp_all
  have s: "has_shape 3 3 (arrays2 ?h 2)"
    by (simp add: has_shape_def matrix_def)
  have V': "arrays1 ?g 0 = [float_of 1, float_of 2, float_of 3]"
    and e': "arrays2 ?g 1 = matrix [[0, 0, 0], [0, 0, 0], [0, 0, 0]]"
    and l': "1 < lim ?g"
    by simp_all
  have s': "has_shape 3 3 (arrays2 ?g 2)"
    by (simp add: has_shape_def matrix_def)
  from scenario_zero_payoff [OF V e s l V' e' s' l'] V s s' show ?thesis
    by blast
qed

section \<open>Repeated updates\<close>

text \<open>
  C8. Two updates in a row with the same \<open>V\<close>, \<open>e\<close>, \<open>betafirm\<close> and \<open>N\<close>, each of the loops
  into a buffer that \<open>np.zeros\<close> has just created, yield two different array objects with
  equal contents; so do two vectorized updates in a row.
\<close>

theorem update_twice_same:
  fixes betafirm :: "'a::{plus,times,zero}"
  assumes "length (arrays1 h V) = N" and "has_shape N N (arrays2 h e)" and "e < lim h"
  shows "(\<exists>b1 h1 h2 b2 h3 h4.
            np_zeros2 (int N, int N) h = (Inr b1, h1) \<and>
            naive_loop V e betafirm (int N) b1 h1 = (Inr (), h2) \<and>
            np_zeros2 (int N, int N) h2 = (Inr b2, h3) \<and>
            naive_loop V e betafirm (int N) b2 h3 = (Inr (), h4) \<and>
            b1 \<noteq> b2 \<and> arrays2 h4 b1 = arrays2 h4 b2) \<and>
         (\<exists>b1 h1 h2 b2 h3 h4.
            np_zeros2 (int N, int N) h = (Inr b1, h1) \<and>
            VFI_loop V e betafirm (int N) b1 h1 = (Inr b1, h2) \<and>
            np_zeros2 (int N, int N) h2 = (Inr b2, h3) \<and>
            VFI_loop V e betafirm (int N) b2 h3 = (Inr b2, h4) \<and>
            b1 \<noteq> b2 \<and> arrays2 h4 b1 = arrays2 h4 b2) \<and>
         (\<exists>VV1 r1 h1 VV2 r2 h2.
            vectorized_update V e betafirm (int N) h = (Inr (VV1, r1), h1) \<and>
            vectorized_update V e betafirm (int N) h1 = (Inr (VV2, r2), h2) \<and>
            r1 \<noteq> r2 \<and> arrays2 h2 r1 = arrays2 h2 r2)"
proof -
  let ?U = "update_matrix (arrays1 h V) (arrays2 h e) betafirm N"
  from VFI_loop_fresh [OF assms, of betafirm] obtain h1 h2 where
    z1: "np_zeros2 (int N, int N) h = (Inr (lim h), h1)"
    and f1: "VFI_loop V e betafirm (int N) (lim h) h1 = (Inr (lim h), h2)"
    and n1: "naive_loop V e betafirm (int N) (lim h) h1 = (Inr (), h2)"
    and r1: "arrays2 h2 (lim h) = ?U"
    and k1: "arrays1 h2 = arrays1 h" "lim h2 = Suc (lim h)" "\<forall>a<lim h. arrays2 h2 a = arrays2 h a"
    by blast
  from assms k1 have a2: "length (arrays1 h2 V) = N" "has_shape N N (arrays2 h2 e)" "e < lim h2"
    by simp_all
  from VFI_loop_fresh [OF a2, of betafirm] obtain h3 h4 where
    z2: "np_zeros2 (int N, int N) h2 = (Inr (lim h2), h3)"
    and f2: "VFI_loop V e betafirm (int N) (lim h2) h3 = (Inr (lim h2), h4)"
    and n2: "naive_loop V e betafirm (int N) (lim h2) h3 = (Inr (), h4)"
    and r2: "arrays2 h4 (lim h2) = update_matrix (arrays1 h2 V) (arrays2 h2 e) betafirm N"
    and k2: "\<forall>a<lim h2. arrays2 h4 a = arrays2 h2 a"
    by blast
  from assms(3) k1 r1 r2 k2 have same: "arrays2 h4 (lim h) = arrays2 h4 (lim h2)"
    by simp
  have ne: "lim h \<noteq> lim h2"
    using k1 by simp
  from vectorized_update_fresh [OF assms, of betafirm] obtain g1 where
    v1: "vectorized_update V e betafirm (int N) h = (Inr (lim h, Suc (lim h)), g1)"
    and s1: "arrays2 g1 (Suc (lim h)) = ?U"
    and j1: "arrays1 g1 = arrays1 h" "lim g1 = Suc (Suc (lim h))" "\<forall>a<lim h. arrays2 g1 a = arrays2 h a"
    by blast
  from assms j1 have b2: "length (arrays1 g1 V) = N" "has_shape N N (arrays2 g1 e)" "e < lim g1"
    by simp_all
  from vectorized_update_fresh [OF b2, of betafirm] obtain g2 where
    v2: "vectorized_update V e betafirm (int N) g1 = (Inr (lim g1, Suc (lim g1)), g2)"
    and s2: "arrays2 g2 (Suc (lim g1)) = update_matrix (arrays1 g1 V) (arrays2 g1 e) betafirm N"
    and j2: "\<forall>a<lim g1. arrays2 g2 a = arrays2 g1 a"
    by blast
  from assms(3) j1 s1 s2 j2 have vsame: "arrays2 g2 (Suc (lim h)) = arrays2 g2 (Suc (lim g1))"
    by simp
  have vne: "Suc (lim h) \<noteq> Suc (lim g1)"
    using j1 by simp
  from z1 n1 z2 n2 ne same have "\<exists>b1 h1 h2 b2 h3 h4.
            np_zeros2 (int N, int N) h = (Inr b1, h1) \<and>
            naive_loop V e betafirm (int N) b1 h1 = (Inr (), h2) \<and>
            np_zeros2 (int N, int N) h2 = (Inr b2, h3) \<and>
            naive_loop V e betafirm (int N) b2 h3 = (Inr (), h4) \<and>
            b1 \<noteq> b2 \<and> arrays2 h4 b1 = arrays2 h4 b2"
    by blast
  moreover from z1 f1 z2 f2 ne same have "\<exists>b1 h1 h2 b2 h3 h4.
            np_zeros2 (int N, int N) h = (Inr b1, h1) \<and>
            VFI_loop V e betafirm (int N) b1 h1 = (Inr b1, h2) \<and>
            np_zeros2 (int N, int N) h2 = (Inr b2, h3) \<and>
            VFI_loop V e betafirm (int N) b2 h3 = (Inr b2, h4) \<and>
            b1 \<noteq> b2 \<and> arrays2 h4 b1 = arrays2 h4 b2"
    by blast
  moreover from v1 v2 vne vsame have "\<exists>VV1 r1 h1 VV2 r2 h2.
            vectorized_update V e betafirm (int N) h = (Inr (VV1, r1), h1) \<and>
            vectorized_update V e betafirm (int N) h1 = (Inr (VV2, r2), h2) \<and>
            r1 \<noteq> r2 \<and> arrays2 h2 r1 = arrays2 h2 r2"
    by blast
  ultimately show ?thesis by blast
qed

theorem update_twice_same_witness:
  "length (arrays1 (store_of [1, 2 :: int] [[10, 20], [30, 40]] [[5, 6], [7, 8]]) 0) = 2 \<and>
   has_shape 2 2 (arrays2 (store_of [1, 2 :: int] [[10, 20], [30, 40]] [[5, 6], [7, 8]]) 1) \<and>
   1 < lim (store_of [1, 2 :: int] [[10, 20], [30, 40]] [[5, 6], [7, 8]]) \<and>
   (\<exists>b1 h1 h2 b2 h3 h4.
      np_zeros2 (2, 2) (store_of [1, 2 :: int] [[10, 20], [30, 40]] [[5, 6], [7, 8]]) = (Inr b1, h1) \<and>
      VFI_loop 0 1 3 2 b1 h1 = (Inr b1, h2) \<and>
      np_zeros2 (2, 2) h2 = (Inr b2, h3) \<and>
      VFI_loop 0 1 3 2 b2 h3 = (Inr b2, h4) \<and>
      b1 \<noteq> b2 \<and> arrays2 h4 b1 = arrays2 h4 b2)"
proof -
  let ?h = "store_of [1, 2 :: int] [[10, 20], [30, 40]] [[5, 6], [7, 8]]"
  have a: "length (arrays1 ?h 0) = 2" "has_shape 2 2 (arrays2 ?h 1)" "1 < lim ?h"
    by (simp_all add: has_shape_def matrix_def)
  have i2: "int 2 = 2" by simp
  from update_twice_same [OF a, of 3, unfolded i2] a show ?thesis
    by blast
qed

end
